theory Spec2Isabelle
  imports Main "HOL-Library.Word" "HOL-Library.AList"
begin

section \<open>Shared data: tracks, playlists, crashes\<close>

text \<open>
  A track is an opaque reference owned by the streaming backend. The model keeps what the
  code asks of it: \<open>Name()\<close>, \<open>Artist(0).Name()\<close>, \<open>Duration().String()\<close>,
  \<open>Availability()\<close>, and the answer of \<open>session.Player().Load(track)\<close>
  (\<open>None\<close> for a nil error).
\<close>

datatype TrackAvailability =
  TrackAvailabilityUnavailable
  | TrackAvailabilityAvailable
  | TrackAvailabilityNotStreamable
  | TrackAvailabilityBannedByArtist

record Track =
  trackName :: string
  artistName :: string
  durationString :: string
  Availability :: TrackAvailability
  loadError :: "string option"

text \<open>
  Everything that stops the running code: a Go panic (with its message),
  \<open>log.Fatal\<close>, which logs and then calls \<open>os.Exit(1)\<close>, and the error of
  popping the empty queue.
\<close>

datatype crash = Panic string | Fatal string | EmptyQueue

text \<open>
  A playlist is its ordered track list; \<open>Tracks()\<close> is the length. Indices and
  counts are Go \<open>int\<close>s; the code adds or subtracts at most 1 within the range of a
  length, so they are kept as unbounded integers.
\<close>

type_synonym Playlist = "Track list"

definition Tracks :: "Playlist \<Rightarrow> int" where
  "Tracks playlist = int (length playlist)"

text \<open>\<open>playlist.Track(n).Track()\<close>: the backend library panics outside the range.\<close>

definition Track_at :: "Playlist \<Rightarrow> int \<Rightarrow> crash + Track" where
  "Track_at playlist n =
     (if n < 0 \<or> n \<ge> Tracks playlist then Inl (Panic ''playlist track out of range'')
      else Inr (playlist ! nat n))"

text \<open>
  \<open>rand.Intn(n)\<close> panics when \<open>n \<le> 0\<close> and otherwise returns a value of
  \<open>[0, n)\<close>. The generator's raw draw is an argument; every value below \<open>n\<close>
  is the result for some draw.
\<close>

definition Intn :: "nat \<Rightarrow> int \<Rightarrow> crash + int" where
  "Intn draw n =
     (if n \<le> 0 then Inl (Panic ''invalid argument to Intn'')
      else Inr (int draw mod n))"

section \<open>ui/cui.go: the play queue and the playback mode selector\<close>

datatype Mode = Sequential | Shuffle | ShuffleAll

datatype ui_event = Play "Track option"

text \<open>
  The package-level variables \<open>gui\<close>, \<open>queue\<close>, \<open>state\<close> and \<open>playlists\<close>
  as one record. \<open>playlists\<close> is a Go map; it is kept as an association list whose
  order stands for the order in which \<open>range\<close> visits the map. \<open>events\<close> records
  what the UI sends on the event bus, \<open>queueView\<close> and \<open>statusView\<close> what is
  written to the two views.
\<close>

record Ui =
  gui_currentTrack :: "Track option"
  queue :: "Track list"
  currentPlaylist :: string
  currentIndexTrack :: int
  currentMessage :: string
  mode :: Mode
  playlists :: "(string \<times> Playlist) list"
  events :: "ui_event list"
  queueView :: "string list"
  statusView :: string

text \<open>
  Modelled from the spec: the \<open>Queue\<close> type (\<open>isEmpty\<close>, \<open>Pop\<close>, \<open>Contents\<close>)
  is not in the sources. \<open>Pop\<close> removes and returns the front element, and is an
  error on the empty queue.
\<close>

definition isEmpty :: "Track list \<Rightarrow> bool" where
  "isEmpty q = (q = [])"

definition Pop :: "Track list \<Rightarrow> crash + (Track \<times> Track list)" where
  "Pop q = (case q of [] \<Rightarrow> Inl EmptyQueue | t # rest \<Rightarrow> Inr (t, rest))"

definition Contents :: "Track list \<Rightarrow> Track list" where
  "Contents q = q"

text \<open>
  Modelled from the spec: \<open>UiState\<close> is not in the sources. A playlist is selected
  when the cursor names one; exactly one mode is active.
\<close>

definition hasPlaylistSelected :: "Ui \<Rightarrow> bool" where
  "hasPlaylistSelected s = (currentPlaylist s \<noteq> [])"

definition isAllRandomMode :: "Ui \<Rightarrow> bool" where
  "isAllRandomMode s = (mode s = ShuffleAll)"

definition isRandomMode :: "Ui \<Rightarrow> bool" where
  "isRandomMode s = (mode s = Shuffle)"

text \<open>
  \<open>gui.updateStatus\<close>. The view is written by
  \<open>fmt.Fprintf(gui.statusView, state.getModeAsString()+"%v", state.currentMessage)\<close>:
  the mode string is part of the format. The formatting of the library, from a format
  and its one operand to the text written, and \<open>getModeAsString\<close>, which is not in
  the sources, are parameters.
\<close>

definition gui_updateStatus ::
  "(string \<Rightarrow> string \<Rightarrow> string) \<Rightarrow> (Mode \<Rightarrow> string) \<Rightarrow> string \<Rightarrow> Ui \<Rightarrow> Ui" where
  "gui_updateStatus Sprintf getModeAsString message s =
     s\<lparr>currentMessage := message,
       statusView := Sprintf (getModeAsString (mode s) @ ''%v'') message\<rparr>"

definition gui_play :: "Track option \<Rightarrow> Ui \<Rightarrow> Ui" where
  "gui_play track s = s\<lparr>gui_currentTrack := track, events := events s @ [Play track]\<rparr>"

definition updateQueueView :: "Ui \<Rightarrow> Ui" where
  "updateQueueView s =
     s\<lparr>queueView :=
          (if \<not> isEmpty (queue s)
           then map (\<lambda>track. artistName track @ '' - '' @ trackName track) (Contents (queue s))
           else [])\<rparr>"

definition getNextTrack :: "Ui \<Rightarrow> Playlist \<Rightarrow> int" where
  "getNextTrack s playlist =
     (if currentIndexTrack s \<ge> Tracks playlist - 1 then 0
      else currentIndexTrack s + 1)"

definition getRandomNextTrack :: "nat \<Rightarrow> Playlist \<Rightarrow> crash + int" where
  "getRandomNextTrack draw playlist = Intn draw (Tracks playlist)"

text \<open>
  The \<open>range\<close> loop of \<open>getRandomNextPlaylistAndTrack\<close>: it leaves the name empty
  and the playlist nil when no entry has the wanted position.
\<close>

fun range_playlists :: "(string \<times> Playlist) list \<Rightarrow> int \<Rightarrow> int \<Rightarrow> string \<times> Playlist option" where
  "range_playlists [] index count = ([], None)"
| "range_playlists ((key, val) # rest) index count =
     (if index = count then (key, Some val) else range_playlists rest index (count + 1))"

definition getRandomNextPlaylistAndTrack ::
  "nat \<Rightarrow> nat \<Rightarrow> (string \<times> Playlist) list \<Rightarrow> crash + (string \<times> int)" where
  "getRandomNextPlaylistAndTrack draw1 draw2 pls =
     (case Intn draw1 (int (length pls)) of
        Inl c \<Rightarrow> Inl c
      | Inr index \<Rightarrow>
          (case range_playlists pls index 0 of
             (newPlaylistName, None) \<Rightarrow> Inl (Panic ''nil pointer dereference'')
           | (newPlaylistName, Some playlist) \<Rightarrow>
               (case Intn draw2 (Tracks playlist) of
                  Inl c \<Rightarrow> Inl c
                | Inr i \<Rightarrow> Inr (newPlaylistName, i))))"

definition playNextFromPlaylist :: "nat \<Rightarrow> nat \<Rightarrow> Ui \<Rightarrow> crash + Ui" where
  "playNextFromPlaylist draw1 draw2 s =
     (let sel =
        (if isAllRandomMode s then
           (case getRandomNextPlaylistAndTrack draw1 draw2 (playlists s) of
              Inl c \<Rightarrow> Inl c
            | Inr (name, i) \<Rightarrow>
                Inr (s\<lparr>currentPlaylist := name, currentIndexTrack := i\<rparr>,
                     map_of (playlists s) name))
         else (case map_of (playlists s) (currentPlaylist s) of
                 None \<Rightarrow> Inl (Panic ''nil pointer dereference'')
               | Some playlist \<Rightarrow>
                   if isRandomMode s then
                     (case getRandomNextTrack draw1 playlist of
                        Inl c \<Rightarrow> Inl c
                      | Inr i \<Rightarrow> Inr (s\<lparr>currentIndexTrack := i\<rparr>, Some playlist))
                   else Inr (s\<lparr>currentIndexTrack := getNextTrack s playlist\<rparr>, Some playlist)))
      in case sel of
           Inl c \<Rightarrow> Inl c
         | Inr (s', None) \<Rightarrow> Inl (Panic ''nil pointer dereference'')
         | Inr (s', Some playlist) \<Rightarrow>
             (case Track_at playlist (currentIndexTrack s') of
                Inl c \<Rightarrow> Inl c
              | Inr track \<Rightarrow> Inr (gui_play (Some track) s')))"

definition playNextFromQueue :: "Ui \<Rightarrow> crash + Ui" where
  "playNextFromQueue s =
     (case Pop (queue s) of
        Inl c \<Rightarrow> Inl c
      | Inr (track, rest) \<Rightarrow> Inr (updateQueueView (gui_play (Some track) (s\<lparr>queue := rest\<rparr>))))"

definition playNext :: "nat \<Rightarrow> nat \<Rightarrow> Ui \<Rightarrow> crash + Ui" where
  "playNext draw1 draw2 s =
     (if \<not> isEmpty (queue s) then playNextFromQueue s
      else if hasPlaylistSelected s then playNextFromPlaylist draw1 draw2 s
      else Inr s)"

section \<open>The keyboard command dispatcher\<close>

text \<open>
  A key is a Go \<open>rune\<close>. \<open>string(r)\<close> is the UTF-8 encoding of the code point, and
  of U+FFFD for a value that is no code point.
\<close>

type_synonym rune = int

definition string_of_rune :: "rune \<Rightarrow> string" where
  "string_of_rune r =
     (if r < 0 \<or> 0x10FFFF < r \<or> (0xD800 \<le> r \<and> r \<le> 0xDFFF)
        then [char_of (0xEF :: int), char_of (0xBF :: int), char_of (0xBD :: int)]
      else if r < 0x80 then [char_of r]
      else if r < 0x800 then [char_of (0xC0 + r div 64), char_of (0x80 + r mod 64)]
      else if r < 0x10000
        then [char_of (0xE0 + r div 4096), char_of (0x80 + r div 64 mod 64),
              char_of (0x80 + r mod 64)]
      else [char_of (0xF0 + r div 262144), char_of (0x80 + r div 4096 mod 64),
            char_of (0x80 + r div 64 mod 64), char_of (0x80 + r mod 64)])"

definition rune_of_char :: "char \<Rightarrow> rune" where
  "rune_of_char c = of_char c"

text \<open>The command names.\<close>

abbreviation PauseTrack :: string where "PauseTrack \<equiv> ''PauseTrack''"
abbreviation ShuffleMode :: string where "ShuffleMode \<equiv> ''ShuffleMode''"
abbreviation ShuffleAllMode :: string where "ShuffleAllMode \<equiv> ''ShuffleAllMode''"
abbreviation NextTrack :: string where "NextTrack \<equiv> ''NextTrack''"
abbreviation ReplayTrack :: string where "ReplayTrack \<equiv> ''ReplayTrack''"
abbreviation Search :: string where "Search \<equiv> ''Search''"
abbreviation Quit :: string where "Quit \<equiv> ''Quit''"
abbreviation QueueTrack :: string where "QueueTrack \<equiv> ''QueueTrack''"
abbreviation QueuePlaylist :: string where "QueuePlaylist \<equiv> ''QueuePlaylist''"
abbreviation RepeatPlayingTrack :: string where "RepeatPlayingTrack \<equiv> ''RepeatPlayingTrack''"
abbreviation RemoveTrack :: string where "RemoveTrack \<equiv> ''RemoveTrack''"
abbreviation RemoveAllTracks :: string where "RemoveAllTracks \<equiv> ''RemoveAllTracks''"
abbreviation GoToFirstLine :: string where "GoToFirstLine \<equiv> ''GoToFirstLine''"
abbreviation GoToLastLine :: string where "GoToLastLine \<equiv> ''GoToLastLine''"
abbreviation PlaySelectedTrack :: string where "PlaySelectedTrack \<equiv> ''PlaySelectedTrack''"
abbreviation Up :: string where "Up \<equiv> ''Up''"
abbreviation Down :: string where "Down \<equiv> ''Down''"
abbreviation Left :: string where "Left \<equiv> ''Left''"
abbreviation Right :: string where "Right \<equiv> ''Right''"
abbreviation OpenCloseFolder :: string where "OpenCloseFolder \<equiv> ''OpenCloseFolder''"
abbreviation ArtistAlbums :: string where "ArtistAlbums \<equiv> ''ArtistAlbums''"
abbreviation CreatePlaylist :: string where "CreatePlaylist \<equiv> ''CreatePlaylist''"

text \<open>
  The command handlers, by name. What a handler does to the user interface is a parameter
  of the dispatcher (\<open>exec\<close> below): it is given the view and the repeat counter, which
  the handlers read, and returns its \<open>error\<close> (\<open>None\<close> for nil) and the new user
  interface. No handler assigns \<open>multipleKeysBuffer\<close> or \<open>multipleKeysNumber\<close>.
\<close>

datatype keyHandler =
  pauseTrackCommand | setShuffleMode | setShuffleAllMode | nextTrackCommand
  | replayTrackCommand | enableSearchInputCommand | repeatPlayingTrackCommand | quit
  | goToFirstLineCommand | goToLastLineCommand | cursorUp | cursorDown
  | removeTrackCommand | removeAllTracksCommand | queueTrackCommand | queuePlaylistCommand
  | playSelectedTrack | mainNextViewLeft | nextView | mainNextViewRight
  | openCloseFolderCommand | artistAlbums | enableCreatePlaylistCommand

record KeyEntry =
  Key :: string
  Command :: string

text \<open>
  The three Go maps of \<open>Keyboard\<close> as association lists; the order of
  \<open>ConfiguredKeys\<close> stands for the order in which \<open>range\<close> visits it. A key
  missing from \<open>UsedFunctions\<close> reads as false, one missing from \<open>SequentialKeys\<close>
  as nil.
\<close>

record Keyboard =
  ConfiguredKeys :: "(string \<times> string list) list"
  UsedFunctions :: "(string \<times> bool) list"
  SequentialKeys :: "(string \<times> keyHandler) list"

text \<open>
  The view names and the key codes of the terminal library, which the sources use and do
  not declare.
\<close>

record Consts =
  VIEW_PLAYLISTS :: string
  VIEW_QUEUE :: string
  VIEW_TRACKS :: string
  KeyEnter :: rune
  KeySpace :: rune
  KeyArrowUp :: rune
  KeyArrowDown :: rune
  KeyArrowLeft :: rune
  KeyArrowRight :: rune

definition used :: "Keyboard \<Rightarrow> string \<Rightarrow> bool" where
  "used keyboard command =
     (case map_of (UsedFunctions keyboard) command of None \<Rightarrow> False | Some b \<Rightarrow> b)"

definition addKey :: "string \<Rightarrow> string \<Rightarrow> Keyboard \<Rightarrow> Keyboard" where
  "addKey key command keyboard =
     keyboard\<lparr>
       ConfiguredKeys :=
         AList.update key
           ((case map_of (ConfiguredKeys keyboard) key of None \<Rightarrow> [] | Some cs \<Rightarrow> cs) @ [command])
           (ConfiguredKeys keyboard),
       UsedFunctions := AList.update command True (UsedFunctions keyboard)\<rparr>"

text \<open>
  \<open>defaultValues\<close>: each command that no loaded entry uses gets its default keys, in the
  order of the source.
\<close>

definition default_keys :: "(string \<times> string list) list" where
  "default_keys =
     [(PauseTrack, [''p'']), (ShuffleMode, [''s'']), (ShuffleAllMode, [''S'']),
      (NextTrack, [''>'']), (ReplayTrack, [''<'']), (Search, [''/'']), (Quit, [''q'']),
      (QueueTrack, [''u'']), (QueuePlaylist, [''u'']), (RepeatPlayingTrack, [''r'']),
      (RemoveTrack, [''dd'']), (RemoveAllTracks, [''D'']), (GoToFirstLine, [''gg'']),
      (GoToLastLine, [''G'']), (PlaySelectedTrack, [''<space>'', ''<enter>'']),
      (Up, [''<up>'', ''k'']), (Down, [''<down>'', ''j'']), (Left, [''<left>'', ''h'']),
      (Right, [''<right>'', ''l'']), (OpenCloseFolder, [''<space>'']),
      (ArtistAlbums, [''i'']), (CreatePlaylist, [''c''])]"

definition defaultValues :: "Keyboard \<Rightarrow> Keyboard" where
  "defaultValues keyboard =
     foldl (\<lambda>kb (command, keys).
              if \<not> used kb command then foldl (\<lambda>kb' key. addKey key command kb') kb keys
              else kb)
       keyboard default_keys"

text \<open>
  \<open>loadKeyFunctions\<close>: the entries of the key file, the empty list when there is no
  file or it does not parse.
\<close>

definition loadKeyFunctions :: "KeyEntry list \<Rightarrow> Keyboard \<Rightarrow> Keyboard" where
  "loadKeyFunctions fileContent keyboard =
     foldl (\<lambda>kb keyEntry. addKey (Key keyEntry) (Command keyEntry) kb) keyboard fileContent"

definition special_key :: "Consts \<Rightarrow> string \<Rightarrow> string" where
  "special_key c key =
     (if key = ''<enter>'' then string_of_rune (KeyEnter c)
      else if key = ''<space>'' then string_of_rune (KeySpace c)
      else if key = ''<up>'' then string_of_rune (KeyArrowUp c)
      else if key = ''<down>'' then string_of_rune (KeyArrowDown c)
      else if key = ''<left>'' then string_of_rune (KeyArrowLeft c)
      else if key = ''<right>'' then string_of_rune (KeyArrowRight c)
      else key)"

definition setSequentialKey :: "string \<Rightarrow> string \<Rightarrow> keyHandler \<Rightarrow> Keyboard \<Rightarrow> Keyboard" where
  "setSequentialKey view key handler keyboard =
     keyboard\<lparr>SequentialKeys := AList.update (view @ '' '' @ key) handler (SequentialKeys keyboard)\<rparr>"

definition configureKey :: "Consts \<Rightarrow> keyHandler \<Rightarrow> string \<Rightarrow> string \<Rightarrow> Keyboard \<Rightarrow> Keyboard" where
  "configureKey c handler command view keyboard =
     foldl (\<lambda>kb (key0, commands).
              let key = special_key c key0 in
              foldl (\<lambda>kb' c'.
                       if c' = command then
                         (if view = [] then
                            setSequentialKey (VIEW_TRACKS c) key handler
                              (setSequentialKey (VIEW_QUEUE c) key handler
                                 (setSequentialKey (VIEW_PLAYLISTS c) key handler kb'))
                          else setSequentialKey view key handler kb')
                       else kb')
                kb commands)
       keyboard (ConfiguredKeys keyboard)"

text \<open>
  \<open>keybindings\<close>, as far as it builds \<open>SequentialKeys\<close>. The registrations with the
  terminal library (which keystrokes reach \<open>keyPressed\<close>, which
  \<open>multipleKeysNumberPressed\<close>) are left out.
\<close>

definition per_view_commands :: "(keyHandler \<times> string) list" where
  "per_view_commands =
     [(pauseTrackCommand, PauseTrack), (setShuffleMode, ShuffleMode),
      (setShuffleAllMode, ShuffleAllMode), (nextTrackCommand, NextTrack),
      (replayTrackCommand, ReplayTrack), (enableSearchInputCommand, Search),
      (repeatPlayingTrackCommand, RepeatPlayingTrack), (quit, Quit),
      (goToFirstLineCommand, GoToFirstLine), (goToLastLineCommand, GoToLastLine),
      (cursorUp, Up), (cursorDown, Down), (removeTrackCommand, RemoveTrack),
      (removeAllTracksCommand, RemoveAllTracks)]"

definition keybindings :: "Consts \<Rightarrow> KeyEntry list \<Rightarrow> Keyboard" where
  "keybindings c fileContent =
     (let kb0 = defaultValues (loadKeyFunctions fileContent
                  \<lparr>ConfiguredKeys = [], UsedFunctions = [], SequentialKeys = []\<rparr>);
          kb1 = foldl (\<lambda>kb view.
                         foldl (\<lambda>kb' (handler, command). configureKey c handler command view kb')
                           kb per_view_commands)
                  kb0 [VIEW_TRACKS c, VIEW_PLAYLISTS c, VIEW_QUEUE c]
      in foldl (\<lambda>kb (handler, command, view). configureKey c handler command view kb) kb1
           [(queueTrackCommand, QueueTrack, VIEW_TRACKS c),
            (queuePlaylistCommand, QueuePlaylist, VIEW_PLAYLISTS c),
            (playSelectedTrack, PlaySelectedTrack, VIEW_TRACKS c),
            (mainNextViewLeft, Left, VIEW_TRACKS c),
            (nextView, Left, VIEW_QUEUE c),
            (nextView, Right, VIEW_PLAYLISTS c),
            (mainNextViewRight, Right, VIEW_TRACKS c),
            (openCloseFolderCommand, OpenCloseFolder, VIEW_PLAYLISTS c),
            (artistAlbums, ArtistAlbums, VIEW_TRACKS c),
            (enableCreatePlaylistCommand, CreatePlaylist, VIEW_QUEUE c)])"

text \<open>
  The dispatcher's variables: the key buffer, the repeat counter (a Go \<open>int\<close>, here of
  64 bits) and the user interface the handlers act on.
\<close>

record 'w Dispatcher =
  multipleKeysBuffer :: "rune list"
  multipleKeysNumber :: "64 word"
  world :: 'w

type_synonym 'w exec = "keyHandler \<Rightarrow> string \<Rightarrow> 64 word \<Rightarrow> 'w \<Rightarrow> string option \<times> 'w"

definition keyCombination :: "rune list \<Rightarrow> string" where
  "keyCombination buf =
     (if length buf = 1 then string_of_rune (buf ! 0)
      else string_of_rune (buf ! 0) @ string_of_rune (buf ! 1))"

function keyPressed ::
  "Keyboard \<Rightarrow> 'w exec \<Rightarrow> rune \<Rightarrow> string \<Rightarrow> 'w Dispatcher \<Rightarrow> string option \<times> 'w Dispatcher" where
  "keyPressed keyboard exec key v s =
     (let buf = multipleKeysBuffer s @ [key] in
      case map_of (SequentialKeys keyboard) (v @ '' '' @ keyCombination buf) of
        Some handler \<Rightarrow>
          (let (err, w) = exec handler v (multipleKeysNumber s) (world s)
           in (err, s\<lparr>multipleKeysBuffer := [], multipleKeysNumber := 0, world := w\<rparr>))
      | None \<Rightarrow>
          if length buf \<ge> 2
          then keyPressed keyboard exec (buf ! 1) v (s\<lparr>multipleKeysBuffer := []\<rparr>)
          else (None, s\<lparr>multipleKeysBuffer := buf\<rparr>))"
  by pat_completeness auto
termination
  by (relation "measure (\<lambda>(keyboard, exec, key, v, s). length (multipleKeysBuffer s))") auto

text \<open>
  The values \<open>multipleKeysBuffer\<close> takes during one call of \<open>keyPressed\<close>, in order:
  one for each of its assignments.
\<close>

function keyPressed_buffers :: "Keyboard \<Rightarrow> rune \<Rightarrow> string \<Rightarrow> rune list \<Rightarrow> rune list list" where
  "keyPressed_buffers keyboard key v buf0 =
     (let buf = buf0 @ [key] in
      case map_of (SequentialKeys keyboard) (v @ '' '' @ keyCombination buf) of
        Some handler \<Rightarrow> [buf, []]
      | None \<Rightarrow>
          if length buf \<ge> 2
          then [buf, []] @ keyPressed_buffers keyboard (buf ! 1) v []
          else [buf])"
  by pat_completeness auto
termination
  by (relation "measure (\<lambda>(keyboard, key, v, buf0). length buf0)") auto

declare keyPressed.simps [simp del] keyPressed_buffers.simps [simp del]





section \<open>spotify: the player's event loop\<close>

text \<open>What the player does to its collaborators: the session, the cache and the event bus.\<close>

datatype effect =
  SessionLogout
  | DeleteCache string
  | EventsShutdown
  | EventsSetStatus string
  | EventsNextPlay
  | EventsPlayTokenLost
  | PlayerLoad Track
  | PlayerPlay
  | PlayerPause

record Spotify =
  currentTrack :: "Track option"
  paused :: bool
  cacheLocation :: string
  effects :: "effect list"

definition isTrackAvailable :: "Track \<Rightarrow> bool" where
  "isTrackAvailable track = (Availability track = TrackAvailabilityAvailable)"

definition updateStatus :: "string \<Rightarrow> Track \<Rightarrow> Spotify \<Rightarrow> Spotify" where
  "updateStatus status track s =
     s\<lparr>currentTrack := Some track,
       effects := effects s @
         [EventsSetStatus (status @ '': '' @ artistName track @ '' - '' @ trackName track
                           @ '' ['' @ durationString track @ '']'')]\<rparr>"

text \<open>\<open>play\<close>; calling \<open>Availability\<close> through a nil track is a nil dereference.\<close>

definition play :: "Track option \<Rightarrow> Spotify \<Rightarrow> crash + Spotify" where
  "play t s =
     (case t of
        None \<Rightarrow> Inl (Panic ''nil pointer dereference'')
      | Some track \<Rightarrow>
          if \<not> isTrackAvailable track
          then Inr (s\<lparr>effects := effects s @ [EventsSetStatus ''Not available'']\<rparr>)
          else (case loadError track of
                  Some err \<Rightarrow> Inl (Fatal err)
                | None \<Rightarrow>
                    Inr (updateStatus ''Playing'' track
                           (s\<lparr>effects := effects s @ [PlayerLoad track, PlayerPlay]\<rparr>))))"

definition isPausedOrPlaying :: "Spotify \<Rightarrow> bool" where
  "isPausedOrPlaying s = (currentTrack s \<noteq> None)"

definition playCurrentTrack :: "Spotify \<Rightarrow> crash + Spotify" where
  "playCurrentTrack s =
     (case play (currentTrack s) s of
        Inl c \<Rightarrow> Inl c
      | Inr s' \<Rightarrow> Inr (s'\<lparr>paused := False\<rparr>))"

definition pauseCurrentTrack :: "Spotify \<Rightarrow> crash + Spotify" where
  "pauseCurrentTrack s =
     (case currentTrack s of
        None \<Rightarrow> Inl (Panic ''nil pointer dereference'')
      | Some track \<Rightarrow>
          Inr ((updateStatus ''Paused'' track (s\<lparr>effects := effects s @ [PlayerPause]\<rparr>))
                 \<lparr>paused := True\<rparr>))"

definition pause :: "Spotify \<Rightarrow> crash + Spotify" where
  "pause s =
     (if isPausedOrPlaying s
      then (if paused s then playCurrentTrack s else pauseCurrentTrack s)
      else Inr s)"

definition shutdownSpotify :: "Spotify \<Rightarrow> Spotify" where
  "shutdownSpotify s =
     s\<lparr>effects := effects s @ [SessionLogout, DeleteCache (cacheLocation s), EventsShutdown]\<rparr>"

text \<open>The signal a \<open>select\<close> of \<open>waitForEvents\<close> receives.\<close>

datatype signal =
  EndOfTrackUpdates
  | PlayTokenLostUpdates
  | PlayUpdates "Track option"
  | PauseUpdates
  | ReplayUpdates
  | ShutdownSpotifyUpdates
  | SearchUpdates string
  | GetArtistTopTracksUpdates string

text \<open>
  \<open>search\<close> and \<open>artistTopTrack\<close> are not in the sources; the loop takes them as
  parameters.
\<close>

record Absent =
  search :: "string \<Rightarrow> Spotify \<Rightarrow> crash + Spotify"
  artistTopTrack :: "string \<Rightarrow> Spotify \<Rightarrow> crash + Spotify"

text \<open>One round of \<open>waitForEvents\<close>: the \<open>select\<close> on the received signal.\<close>

fun select :: "Absent \<Rightarrow> signal \<Rightarrow> Spotify \<Rightarrow> crash + Spotify" where
  "select ext EndOfTrackUpdates s = Inr (s\<lparr>effects := effects s @ [EventsNextPlay]\<rparr>)"
| "select ext PlayTokenLostUpdates s = Inr (s\<lparr>effects := effects s @ [EventsPlayTokenLost]\<rparr>)"
| "select ext (PlayUpdates track) s = play track s"
| "select ext PauseUpdates s = pause s"
| "select ext ReplayUpdates s = playCurrentTrack s"
| "select ext ShutdownSpotifyUpdates s = Inr (shutdownSpotify s)"
| "select ext (SearchUpdates query) s = search ext query s"
| "select ext (GetArtistTopTracksUpdates artist) s = artistTopTrack ext artist s"

text \<open>
  \<open>waitForEvents\<close> is \<open>for { select { ... } }\<close>, with no \<open>return\<close> and no \<open>break\<close>.
  The model runs it on the signals received, in their order of arrival. Its value is the
  crash that ended the loop, or the state in which the loop is blocked in \<open>select\<close>
  once all the signals have been served.
\<close>

fun waitForEvents :: "Absent \<Rightarrow> signal list \<Rightarrow> Spotify \<Rightarrow> crash + Spotify" where
  "waitForEvents ext [] s = Inr s"
| "waitForEvents ext (x # xs) s =
     (case select ext x s of
        Inl c \<Rightarrow> Inl c
      | Inr s' \<Rightarrow> waitForEvents ext xs s')"

section \<open>Example inputs\<close>

definition three_tracks :: Playlist where
  "three_tracks =
     [\<lparr>trackName = ''Blue in Green'', artistName = ''Miles Davis'', durationString = ''5m37s'',
        Availability = TrackAvailabilityAvailable, loadError = None\<rparr>,
      \<lparr>trackName = ''Naima'', artistName = ''John Coltrane'', durationString = ''4m21s'',
        Availability = TrackAvailabilityAvailable, loadError = None\<rparr>,
      \<lparr>trackName = ''Footprints'', artistName = ''Wayne Shorter'', durationString = ''7m29s'',
        Availability = TrackAvailabilityUnavailable, loadError = None\<rparr>]"

definition ui0 :: Ui where
  "ui0 = \<lparr>gui_currentTrack = None, queue = [], currentPlaylist = ''jazz'', currentIndexTrack = 2,
          currentMessage = [], mode = Sequential,
          playlists = [(''empty'', []), (''jazz'', three_tracks)],
          events = [], queueView = [], statusView = []\<rparr>"

text \<open>The view names, and the key codes of the terminal library.\<close>

definition consts0 :: Consts where
  "consts0 = \<lparr>VIEW_PLAYLISTS = ''playlists'', VIEW_QUEUE = ''queue'', VIEW_TRACKS = ''tracks'',
              KeyEnter = 0x0D, KeySpace = 0x20, KeyArrowUp = 0xFFED, KeyArrowDown = 0xFFEC,
              KeyArrowLeft = 0xFFEB, KeyArrowRight = 0xFFEA\<rparr>"

text \<open>Handlers that only log their calls: the handler, the view, and the counter it reads.\<close>

definition log_exec :: "(keyHandler \<times> string \<times> 64 word) list exec" where
  "log_exec handler v n w = (None, w @ [(handler, v, n)])"

text \<open>The key table that \<open>keybindings\<close> builds when there is no key file.\<close>

definition keyboard0 :: Keyboard where
  "keyboard0 = keybindings consts0 []"

text \<open>A player at rest, a track whose load fails, and stand-ins for the absent handlers.\<close>

definition spotify0 :: Spotify where
  "spotify0 = \<lparr>currentTrack = None, paused = False, cacheLocation = ''/tmp/sconsify/cache'',
               effects = []\<rparr>"

definition naima :: Track where
  "naima = \<lparr>trackName = ''Naima'', artistName = ''John Coltrane'', durationString = ''4m21s'',
            Availability = TrackAvailabilityAvailable, loadError = None\<rparr>"

definition footprints :: Track where
  "footprints = \<lparr>trackName = ''Footprints'', artistName = ''Wayne Shorter'',
                 durationString = ''7m29s'', Availability = TrackAvailabilityUnavailable,
                 loadError = None\<rparr>"

definition broken :: Track where
  "broken = \<lparr>trackName = ''Broken'', artistName = ''Nobody'', durationString = ''0s'',
             Availability = TrackAvailabilityAvailable, loadError = Some ''track load failed''\<rparr>"

definition absent0 :: Absent where
  "absent0 = \<lparr>search = (\<lambda>query s. Inr s), artistTopTrack = (\<lambda>artist s. Inr s)\<rparr>"

section \<open>Sequential selection\<close>

lemma getNextTrack_past_end:
  "Tracks playlist - 1 \<le> currentIndexTrack s \<Longrightarrow> getNextTrack s playlist = 0"
  by (simp add: getNextTrack_def)

text \<open>
  C7. In a playlist of \<open>N > 0\<close> tracks, sequential selection from the index \<open>i\<close>
  (\<open>0 \<le> i < N\<close>) yields \<open>(i + 1) mod N\<close>; from \<open>N - 1\<close> it yields \<open>0\<close>.
\<close>

theorem getNextTrack_sequential:
  assumes "0 < Tracks playlist"
    and "0 \<le> currentIndexTrack s" and "currentIndexTrack s < Tracks playlist"
  shows "getNextTrack s playlist = (currentIndexTrack s + 1) mod Tracks playlist
         \<and> (currentIndexTrack s = Tracks playlist - 1 \<longrightarrow> getNextTrack s playlist = 0)"
proof (cases "currentIndexTrack s = Tracks playlist - 1")
  case True
  then show ?thesis by (simp add: getNextTrack_def)
next
  case False
  with assms have "currentIndexTrack s + 1 < Tracks playlist" by simp
  with assms False show ?thesis by (simp add: getNextTrack_def)
qed


theorem getNextTrack_sequential_witness:
  "getNextTrack ui0 three_tracks = (2 + 1) mod 3 \<and> getNextTrack ui0 three_tracks = 0"
  using getNextTrack_sequential [of three_tracks ui0]
  by (simp add: ui0_def three_tracks_def Tracks_def)

section \<open>Selection across all playlists\<close>

lemma range_playlists_nth:
  "count \<le> index \<Longrightarrow> index - count < int (length pls) \<Longrightarrow>
   range_playlists pls index count =
     (fst (pls ! nat (index - count)), Some (snd (pls ! nat (index - count))))"
proof (induction pls arbitrary: count)
  case Nil
  then show ?case by simp
next
  case (Cons entry rest)
  obtain key val where entry: "entry = (key, val)" by (cases entry)
  show ?case
  proof (cases "index = count")
    case True
    then show ?thesis by (simp add: entry)
  next
    case False
    with Cons.prems have le: "count + 1 \<le> index"
      and lt: "index - (count + 1) < int (length rest)" by simp_all
    have "nat (index - count) = Suc (nat (index - (count + 1)))"
      using le by simp
    with Cons.IH [OF le lt] False show ?thesis by (simp add: entry)
  qed
qed

lemma Intn_empty: "Intn draw 0 = Inl (Panic ''invalid argument to Intn'')"
  by (simp add: Intn_def)

lemma Intn_pos: "0 < n \<Longrightarrow> Intn draw n = Inr (int draw mod n)"
  by (simp add: Intn_def)

lemma Intn_range: "Intn draw n = Inr i \<Longrightarrow> 0 \<le> i \<and> i < n"
  by (auto simp: Intn_def split: if_splits)

lemma getRandomNextPlaylistAndTrack_eq:
  "getRandomNextPlaylistAndTrack draw1 draw2 pls =
     (if pls = [] then Inl (Panic ''invalid argument to Intn'')
      else if snd (pls ! (draw1 mod length pls)) = [] then Inl (Panic ''invalid argument to Intn'')
      else Inr (fst (pls ! (draw1 mod length pls)),
                int (draw2 mod length (snd (pls ! (draw1 mod length pls))))))"
proof (cases "pls = []")
  case True
  then show ?thesis by (simp add: getRandomNextPlaylistAndTrack_def Intn_empty)
next
  case False
  define k where "k = draw1 mod length pls"
  from False have pos: "0 < int (length pls)" by simp
  have idx: "Intn draw1 (int (length pls)) = Inr (int k)"
    using Intn_pos [OF pos] by (simp add: k_def zmod_int)
  have "k < length pls" using False by (simp add: k_def)
  then have loop: "range_playlists pls (int k) 0 = (fst (pls ! k), Some (snd (pls ! k)))"
    using range_playlists_nth [of 0 "int k" pls] by simp
  show ?thesis
  proof (cases "snd (pls ! k) = []")
    case True
    with False idx loop show ?thesis
      by (simp add: getRandomNextPlaylistAndTrack_def Tracks_def Intn_empty k_def)
  next
    case nonempty: False
    then have "Intn draw2 (Tracks (snd (pls ! k))) = Inr (int (draw2 mod length (snd (pls ! k))))"
      by (simp add: Intn_pos Tracks_def zmod_int)
    with False nonempty idx loop show ?thesis
      by (simp add: getRandomNextPlaylistAndTrack_def k_def)
  qed
qed

text \<open>
  C1, as the code has it. The playlist is drawn among all playlists of the collection,
  those without tracks included. When the drawn playlist has \<open>N > 0\<close> tracks the result
  is its name and an index of \<open>[0, N)\<close>; when it has none, \<open>rand.Intn(0)\<close> panics and
  nothing is returned. On an empty collection the first \<open>rand.Intn(0)\<close> panics.
\<close>

theorem getRandomNextPlaylistAndTrack_unguarded:
  "getRandomNextPlaylistAndTrack draw1 draw2 pls =
     (if pls = [] then Inl (Panic ''invalid argument to Intn'')
      else if snd (pls ! (draw1 mod length pls)) = [] then Inl (Panic ''invalid argument to Intn'')
      else Inr (fst (pls ! (draw1 mod length pls)),
                int (draw2 mod length (snd (pls ! (draw1 mod length pls))))))"
  by (rule getRandomNextPlaylistAndTrack_eq)

theorem getRandomNextPlaylistAndTrack_unguarded_witness:
  "getRandomNextPlaylistAndTrack 1 5 [(''empty'', []), (''jazz'', three_tracks)] = Inr (''jazz'', 2)
   \<and> getRandomNextPlaylistAndTrack 0 0 [] = Inl (Panic ''invalid argument to Intn'')"
  using getRandomNextPlaylistAndTrack_unguarded [of 1 5 "[(''empty'', []), (''jazz'', three_tracks)]"]
    getRandomNextPlaylistAndTrack_unguarded [of 0 0 "[]"]
  by (simp add: three_tracks_def)

theorem getRandomNextPlaylistAndTrack_empty_playlist_panics:
  "getRandomNextPlaylistAndTrack 0 0 [(''empty'', []), (''jazz'', three_tracks)]
     = Inl (Panic ''invalid argument to Intn'')"
  by (simp add: getRandomNextPlaylistAndTrack_def Intn_def Tracks_def)

section \<open>The queue before the playlists\<close>

lemma playNextFromQueue_front:
  "queue s = t # rest \<Longrightarrow>
   playNextFromQueue s =
     Inr (s\<lparr>queue := rest, gui_currentTrack := Some t, events := events s @ [Play (Some t)],
            queueView := map (\<lambda>track. artistName track @ '' - '' @ trackName track) rest\<rparr>)"
  by (cases rest) (simp_all add: playNextFromQueue_def Pop_def updateQueueView_def gui_play_def
      isEmpty_def Contents_def)

lemma Intn_not_EmptyQueue: "Intn d n = Inl c \<Longrightarrow> c \<noteq> EmptyQueue"
  by (auto simp: Intn_def split: if_splits)

lemma Track_at_not_EmptyQueue: "Track_at p n = Inl c \<Longrightarrow> c \<noteq> EmptyQueue"
  by (auto simp: Track_at_def split: if_splits)

lemma getRandomNextPlaylistAndTrack_not_EmptyQueue:
  "getRandomNextPlaylistAndTrack d1 d2 pls = Inl c \<Longrightarrow> c \<noteq> EmptyQueue"
  by (auto simp: getRandomNextPlaylistAndTrack_eq split: if_splits)

lemma playNextFromPlaylist_Sequential:
  "mode s = Sequential \<Longrightarrow>
   playNextFromPlaylist draw1 draw2 s =
     (case map_of (playlists s) (currentPlaylist s) of
        None \<Rightarrow> Inl (Panic ''nil pointer dereference'')
      | Some playlist \<Rightarrow>
          (case Track_at playlist (getNextTrack s playlist) of
             Inl c \<Rightarrow> Inl c
           | Inr track \<Rightarrow>
               Inr (gui_play (Some track) (s\<lparr>currentIndexTrack := getNextTrack s playlist\<rparr>))))"
  by (simp add: playNextFromPlaylist_def isAllRandomMode_def isRandomMode_def
      split: option.splits)

lemma playNextFromPlaylist_Shuffle:
  "mode s = Shuffle \<Longrightarrow>
   playNextFromPlaylist draw1 draw2 s =
     (case map_of (playlists s) (currentPlaylist s) of
        None \<Rightarrow> Inl (Panic ''nil pointer dereference'')
      | Some playlist \<Rightarrow>
          (case getRandomNextTrack draw1 playlist of
             Inl c \<Rightarrow> Inl c
           | Inr i \<Rightarrow>
              (case Track_at playlist i of
                 Inl c \<Rightarrow> Inl c
               | Inr track \<Rightarrow> Inr (gui_play (Some track) (s\<lparr>currentIndexTrack := i\<rparr>)))))"
  by (simp add: playNextFromPlaylist_def isAllRandomMode_def isRandomMode_def
      split: option.splits sum.splits)

lemma playNextFromPlaylist_ShuffleAll:
  "mode s = ShuffleAll \<Longrightarrow>
   playNextFromPlaylist draw1 draw2 s =
     (case getRandomNextPlaylistAndTrack draw1 draw2 (playlists s) of
        Inl c \<Rightarrow> Inl c
      | Inr (name, i) \<Rightarrow>
          (case map_of (playlists s) name of
             None \<Rightarrow> Inl (Panic ''nil pointer dereference'')
           | Some playlist \<Rightarrow>
               (case Track_at playlist i of
                  Inl c \<Rightarrow> Inl c
                | Inr track \<Rightarrow>
                    Inr (gui_play (Some track)
                           (s\<lparr>currentPlaylist := name, currentIndexTrack := i\<rparr>)))))"
  by (simp add: playNextFromPlaylist_def isAllRandomMode_def
      split: option.splits sum.splits prod.splits)

lemma playNextFromPlaylist_not_EmptyQueue:
  "playNextFromPlaylist draw1 draw2 s \<noteq> Inl EmptyQueue"
proof (cases "mode s")
  case Sequential
  then show ?thesis
    by (auto simp: playNextFromPlaylist_Sequential
        split: option.splits sum.splits dest: Track_at_not_EmptyQueue)
next
  case Shuffle
  then show ?thesis
    by (auto simp: playNextFromPlaylist_Shuffle getRandomNextTrack_def
        split: option.splits sum.splits dest: Track_at_not_EmptyQueue Intn_not_EmptyQueue)
next
  case ShuffleAll
  then show ?thesis
    by (auto simp: playNextFromPlaylist_ShuffleAll
        split: option.splits sum.splits prod.splits
        dest: Track_at_not_EmptyQueue getRandomNextPlaylistAndTrack_not_EmptyQueue)
qed

text \<open>
  What \<open>playNextFromPlaylist\<close> plays when it returns: the track of the cursor's playlist
  at the cursor's index, where the cursor has been moved by the selector of the active mode.
\<close>

lemma playNextFromPlaylist_plays_selected:
  assumes "playNextFromPlaylist draw1 draw2 s = Inr s'"
  shows "\<exists>playlist track.
           map_of (playlists s) (currentPlaylist s') = Some playlist
           \<and> Track_at playlist (currentIndexTrack s') = Inr track
           \<and> queue s' = queue s
           \<and> gui_currentTrack s' = Some track
           \<and> events s' = events s @ [Play (Some track)]
           \<and> (case mode s of
                 ShuffleAll \<Rightarrow>
                   getRandomNextPlaylistAndTrack draw1 draw2 (playlists s)
                     = Inr (currentPlaylist s', currentIndexTrack s')
               | Shuffle \<Rightarrow>
                   currentPlaylist s' = currentPlaylist s
                   \<and> getRandomNextTrack draw1 playlist = Inr (currentIndexTrack s')
               | Sequential \<Rightarrow>
                   currentPlaylist s' = currentPlaylist s
                   \<and> currentIndexTrack s' = getNextTrack s playlist)"
proof (cases "mode s")
  case Sequential
  with assms show ?thesis
    by (auto simp: playNextFromPlaylist_Sequential gui_play_def split: option.splits sum.splits)
next
  case Shuffle
  with assms show ?thesis
    by (auto simp: playNextFromPlaylist_Shuffle gui_play_def split: option.splits sum.splits)
next
  case ShuffleAll
  with assms show ?thesis
    by (auto simp: playNextFromPlaylist_ShuffleAll gui_play_def
        split: option.splits sum.splits prod.splits)
qed

lemma Track_at_in_range:
  "0 \<le> n \<Longrightarrow> n < Tracks playlist \<Longrightarrow> Track_at playlist n = Inr (playlist ! nat n)"
  by (simp add: Track_at_def)

lemma Track_at_mod:
  "playlist \<noteq> [] \<Longrightarrow>
   Track_at playlist (int (draw mod length playlist)) = Inr (playlist ! (draw mod length playlist))"
proof -
  assume "playlist \<noteq> []"
  then have "draw mod length playlist < length playlist" by simp
  then show ?thesis by (simp add: Track_at_def Tracks_def)
qed

lemma getNextTrack_in_range:
  "playlist \<noteq> [] \<Longrightarrow> - 1 \<le> currentIndexTrack s \<Longrightarrow>
   0 \<le> getNextTrack s playlist \<and> getNextTrack s playlist < Tracks playlist"
  by (auto simp: getNextTrack_def Tracks_def)

text \<open>When \<open>playNextFromPlaylist\<close> returns: the cases in which no call panics.\<close>

lemma playNextFromPlaylist_Sequential_returns:
  assumes "mode s = Sequential" and "map_of (playlists s) (currentPlaylist s) = Some playlist"
    and "playlist \<noteq> []" and "- 1 \<le> currentIndexTrack s"
  shows "playNextFromPlaylist draw1 draw2 s =
           Inr (gui_play (Some (playlist ! nat (getNextTrack s playlist)))
                  (s\<lparr>currentIndexTrack := getNextTrack s playlist\<rparr>))"
  using assms getNextTrack_in_range [of playlist s]
  by (simp add: playNextFromPlaylist_Sequential Track_at_in_range)

lemma playNextFromPlaylist_Shuffle_returns:
  assumes "mode s = Shuffle" and "map_of (playlists s) (currentPlaylist s) = Some playlist"
    and "playlist \<noteq> []"
  shows "playNextFromPlaylist draw1 draw2 s =
           Inr (gui_play (Some (playlist ! (draw1 mod length playlist)))
                  (s\<lparr>currentIndexTrack := int (draw1 mod length playlist)\<rparr>))"
proof -
  from assms(3) have "getRandomNextTrack draw1 playlist = Inr (int (draw1 mod length playlist))"
    by (simp add: getRandomNextTrack_def Intn_pos Tracks_def zmod_int)
  with assms show ?thesis
    by (simp add: playNextFromPlaylist_Shuffle Track_at_mod)
qed

lemma map_of_nth_distinct:
  "distinct (map fst pls) \<Longrightarrow> k < length pls \<Longrightarrow> map_of pls (fst (pls ! k)) = Some (snd (pls ! k))"
  by (metis map_of_is_SomeI nth_mem prod.collapse)

lemma playNextFromPlaylist_ShuffleAll_returns:
  assumes "mode s = ShuffleAll" and "playlists s \<noteq> []" and "distinct (map fst (playlists s))"
    and "\<forall>playlist \<in> snd ` set (playlists s). playlist \<noteq> []"
  shows "\<exists>s'. playNextFromPlaylist draw1 draw2 s = Inr s'"
proof -
  define k where "k = draw1 mod length (playlists s)"
  define playlist where "playlist = snd (playlists s ! k)"
  from assms(2) have k: "k < length (playlists s)" by (simp add: k_def)
  with assms(4) have ne: "playlist \<noteq> []"
    by (metis image_eqI nth_mem playlist_def)
  have sel: "getRandomNextPlaylistAndTrack draw1 draw2 (playlists s) =
      Inr (fst (playlists s ! k), int (draw2 mod length playlist))"
    using assms(2) ne by (simp add: getRandomNextPlaylistAndTrack_eq k_def playlist_def)
  have look: "map_of (playlists s) (fst (playlists s ! k)) = Some playlist"
    using map_of_nth_distinct [OF assms(3) k] by (simp add: playlist_def)
  from assms(1) sel look ne show ?thesis
    by (simp add: playNextFromPlaylist_ShuffleAll Track_at_mod)
qed

lemma Track_at_empty: "Track_at [] n = Inl (Panic ''playlist track out of range'')"
  by (auto simp: Track_at_def Tracks_def)

lemma getNextTrack_below:
  "currentIndexTrack s < - 1 \<Longrightarrow> getNextTrack s playlist < 0"
  by (simp add: getNextTrack_def Tracks_def)

lemma playNextFromPlaylist_Sequential_exact:
  assumes "mode s = Sequential"
  shows "playNextFromPlaylist draw1 draw2 s =
     (case map_of (playlists s) (currentPlaylist s) of
        None \<Rightarrow> Inl (Panic ''nil pointer dereference'')
      | Some playlist \<Rightarrow>
          if playlist = [] \<or> currentIndexTrack s < - 1
          then Inl (Panic ''playlist track out of range'')
          else Inr (s\<lparr>currentIndexTrack := getNextTrack s playlist,
                      gui_currentTrack := Some (playlist ! nat (getNextTrack s playlist)),
                      events := events s @ [Play (Some (playlist ! nat (getNextTrack s playlist)))]\<rparr>))"
proof (cases "map_of (playlists s) (currentPlaylist s)")
  case None
  with assms show ?thesis by (simp add: playNextFromPlaylist_Sequential)
next
  case (Some playlist)
  show ?thesis
  proof (cases "playlist = [] \<or> currentIndexTrack s < - 1")
    case True
    then have "Track_at playlist (getNextTrack s playlist) = Inl (Panic ''playlist track out of range'')"
      using getNextTrack_below [of s playlist] by (auto simp: Track_at_empty) (simp add: Track_at_def)
    with assms Some True show ?thesis by (simp add: playNextFromPlaylist_Sequential)
  next
    case False
    then have "playlist \<noteq> []" "- 1 \<le> currentIndexTrack s" by auto
    from playNextFromPlaylist_Sequential_returns [OF assms Some this, of draw1 draw2] Some False
    show ?thesis by (simp add: gui_play_def)
  qed
qed

lemma playNextFromPlaylist_Shuffle_exact:
  assumes "mode s = Shuffle"
  shows "playNextFromPlaylist draw1 draw2 s =
     (case map_of (playlists s) (currentPlaylist s) of
        None \<Rightarrow> Inl (Panic ''nil pointer dereference'')
      | Some playlist \<Rightarrow>
          if playlist = [] then Inl (Panic ''invalid argument to Intn'')
          else Inr (s\<lparr>currentIndexTrack := int (draw1 mod length playlist),
                      gui_currentTrack := Some (playlist ! (draw1 mod length playlist)),
                      events := events s @ [Play (Some (playlist ! (draw1 mod length playlist)))]\<rparr>))"
proof (cases "map_of (playlists s) (currentPlaylist s)")
  case None
  with assms show ?thesis by (simp add: playNextFromPlaylist_Shuffle)
next
  case (Some playlist)
  show ?thesis
  proof (cases "playlist = []")
    case True
    with assms Some show ?thesis
      by (simp add: playNextFromPlaylist_Shuffle getRandomNextTrack_def Tracks_def Intn_empty)
  next
    case False
    from playNextFromPlaylist_Shuffle_returns [OF assms Some False, of draw1 draw2] Some False
    show ?thesis by (simp add: gui_play_def)
  qed
qed

lemma playNextFromPlaylist_ShuffleAll_exact:
  assumes "mode s = ShuffleAll"
  shows "playNextFromPlaylist draw1 draw2 s =
     (if playlists s = [] \<or> snd (playlists s ! (draw1 mod length (playlists s))) = []
      then Inl (Panic ''invalid argument to Intn'')
      else (case map_of (playlists s) (fst (playlists s ! (draw1 mod length (playlists s)))) of
              None \<Rightarrow> Inl (Panic ''nil pointer dereference'')
            | Some playlist \<Rightarrow>
                (case Track_at playlist
                        (int (draw2 mod length (snd (playlists s ! (draw1 mod length (playlists s)))))) of
                   Inl c \<Rightarrow> Inl c
                 | Inr track \<Rightarrow>
                     Inr (s\<lparr>currentPlaylist := fst (playlists s ! (draw1 mod length (playlists s))),
                            currentIndexTrack :=
                              int (draw2 mod length (snd (playlists s ! (draw1 mod length (playlists s))))),
                            gui_currentTrack := Some track,
                            events := events s @ [Play (Some track)]\<rparr>))))"
  using assms
  by (simp add: playNextFromPlaylist_ShuffleAll getRandomNextPlaylistAndTrack_eq gui_play_def
      split: option.splits sum.splits)

lemma playNextFromPlaylist_ShuffleAll_distinct:
  assumes "mode s = ShuffleAll" and "playlists s \<noteq> []" and "distinct (map fst (playlists s))"
    and "snd (playlists s ! (draw1 mod length (playlists s))) \<noteq> []"
  shows "playNextFromPlaylist draw1 draw2 s =
     Inr (s\<lparr>currentPlaylist := fst (playlists s ! (draw1 mod length (playlists s))),
            currentIndexTrack :=
              int (draw2 mod length (snd (playlists s ! (draw1 mod length (playlists s))))),
            gui_currentTrack :=
              Some (snd (playlists s ! (draw1 mod length (playlists s)))
                      ! (draw2 mod length (snd (playlists s ! (draw1 mod length (playlists s)))))),
            events := events s @
              [Play (Some (snd (playlists s ! (draw1 mod length (playlists s)))
                      ! (draw2 mod length (snd (playlists s ! (draw1 mod length (playlists s)))))))]\<rparr>)"
proof -
  define k where "k = draw1 mod length (playlists s)"
  from assms(2) have k: "k < length (playlists s)" by (simp add: k_def)
  have look: "map_of (playlists s) (fst (playlists s ! k)) = Some (snd (playlists s ! k))"
    by (rule map_of_nth_distinct [OF assms(3) k])
  from assms(1,2,4) look show ?thesis
    by (simp add: playNextFromPlaylist_ShuffleAll_exact k_def [symmetric] Track_at_mod)
qed


text \<open>
  C8, as the code has it. \<open>playNext\<close> looks at the queue first. A queue that is not
  empty is popped and its front track played; the cursor stays. With an empty queue and no
  playlist selected, nothing happens. With an empty queue and a playlist selected, the
  selector of the active mode moves the cursor and the track under it is played, when the
  playlist drawn from is in the collection and has a track (and, in sequential mode, the
  index is not below -1); otherwise the selection panics and nothing is played. The empty
  queue is never popped.
\<close>

theorem playNext_queue_first:
  "playNext draw1 draw2 s =
     (case queue s of
        t # rest \<Rightarrow>
          Inr (s\<lparr>queue := rest, gui_currentTrack := Some t, events := events s @ [Play (Some t)],
                 queueView := map (\<lambda>track. artistName track @ '' - '' @ trackName track) rest\<rparr>)
      | [] \<Rightarrow>
          if \<not> hasPlaylistSelected s then Inr s
          else (case mode s of
                  Sequential \<Rightarrow>
                    (case map_of (playlists s) (currentPlaylist s) of
                    None \<Rightarrow> Inl (Panic ''nil pointer dereference'')
                  | Some playlist \<Rightarrow>
                      if playlist = [] \<or> currentIndexTrack s < - 1
                      then Inl (Panic ''playlist track out of range'')
                      else Inr (s\<lparr>currentIndexTrack := getNextTrack s playlist,
                                  gui_currentTrack := Some (playlist ! nat (getNextTrack s playlist)),
                                  events := events s @
                                    [Play (Some (playlist ! nat (getNextTrack s playlist)))]\<rparr>))
                | Shuffle \<Rightarrow>
                    (case map_of (playlists s) (currentPlaylist s) of
                    None \<Rightarrow> Inl (Panic ''nil pointer dereference'')
                  | Some playlist \<Rightarrow>
                      if playlist = [] then Inl (Panic ''invalid argument to Intn'')
                      else Inr (s\<lparr>currentIndexTrack := int (draw1 mod length playlist),
                                  gui_currentTrack := Some (playlist ! (draw1 mod length playlist)),
                                  events := events s @
                                    [Play (Some (playlist ! (draw1 mod length playlist)))]\<rparr>))
                | ShuffleAll \<Rightarrow>
                    (if playlists s = [] \<or> snd (playlists s ! (draw1 mod length (playlists s))) = []
                 then Inl (Panic ''invalid argument to Intn'')
                 else (case map_of (playlists s) (fst (playlists s ! (draw1 mod length (playlists s)))) of
                         None \<Rightarrow> Inl (Panic ''nil pointer dereference'')
                       | Some playlist \<Rightarrow>
                           (case Track_at playlist (int (draw2 mod length (snd (playlists s ! (draw1 mod length (playlists s)))))) of
                              Inl c \<Rightarrow> Inl c
                            | Inr track \<Rightarrow>
                                Inr (s\<lparr>currentPlaylist := fst (playlists s ! (draw1 mod length (playlists s))),
                                       currentIndexTrack := int (draw2 mod length (snd (playlists s ! (draw1 mod length (playlists s))))),
                                       gui_currentTrack := Some track,
                                       events := events s @ [Play (Some track)]\<rparr>))))))
   \<and> (queue s = [] \<and> hasPlaylistSelected s \<and> mode s = ShuffleAll \<and> playlists s \<noteq> []
        \<and> distinct (map fst (playlists s))
        \<and> snd (playlists s ! (draw1 mod length (playlists s))) \<noteq> [] \<longrightarrow>
        playNext draw1 draw2 s =
          Inr (s\<lparr>currentPlaylist := fst (playlists s ! (draw1 mod length (playlists s))),
               currentIndexTrack := int (draw2 mod length (snd (playlists s ! (draw1 mod length (playlists s))))),
               gui_currentTrack := Some (snd (playlists s ! (draw1 mod length (playlists s))) ! (draw2 mod length (snd (playlists s ! (draw1 mod length (playlists s)))))),
               events := events s @
                 [Play (Some (snd (playlists s ! (draw1 mod length (playlists s))) ! (draw2 mod length (snd (playlists s ! (draw1 mod length (playlists s)))))))]\<rparr>))
   \<and> playNext draw1 draw2 s \<noteq> Inl EmptyQueue"
proof (intro conjI impI)
  show "playNext draw1 draw2 s =
     (case queue s of
        t # rest \<Rightarrow>
          Inr (s\<lparr>queue := rest, gui_currentTrack := Some t, events := events s @ [Play (Some t)],
                 queueView := map (\<lambda>track. artistName track @ '' - '' @ trackName track) rest\<rparr>)
      | [] \<Rightarrow>
          if \<not> hasPlaylistSelected s then Inr s
          else (case mode s of
                  Sequential \<Rightarrow>
                    (case map_of (playlists s) (currentPlaylist s) of
                    None \<Rightarrow> Inl (Panic ''nil pointer dereference'')
                  | Some playlist \<Rightarrow>
                      if playlist = [] \<or> currentIndexTrack s < - 1
                      then Inl (Panic ''playlist track out of range'')
                      else Inr (s\<lparr>currentIndexTrack := getNextTrack s playlist,
                                  gui_currentTrack := Some (playlist ! nat (getNextTrack s playlist)),
                                  events := events s @
                                    [Play (Some (playlist ! nat (getNextTrack s playlist)))]\<rparr>))
                | Shuffle \<Rightarrow>
                    (case map_of (playlists s) (currentPlaylist s) of
                    None \<Rightarrow> Inl (Panic ''nil pointer dereference'')
                  | Some playlist \<Rightarrow>
                      if playlist = [] then Inl (Panic ''invalid argument to Intn'')
                      else Inr (s\<lparr>currentIndexTrack := int (draw1 mod length playlist),
                                  gui_currentTrack := Some (playlist ! (draw1 mod length playlist)),
                                  events := events s @
                                    [Play (Some (playlist ! (draw1 mod length playlist)))]\<rparr>))
                | ShuffleAll \<Rightarrow>
                    (if playlists s = [] \<or> snd (playlists s ! (draw1 mod length (playlists s))) = []
                 then Inl (Panic ''invalid argument to Intn'')
                 else (case map_of (playlists s) (fst (playlists s ! (draw1 mod length (playlists s)))) of
                         None \<Rightarrow> Inl (Panic ''nil pointer dereference'')
                       | Some playlist \<Rightarrow>
                           (case Track_at playlist (int (draw2 mod length (snd (playlists s ! (draw1 mod length (playlists s)))))) of
                              Inl c \<Rightarrow> Inl c
                            | Inr track \<Rightarrow>
                                Inr (s\<lparr>currentPlaylist := fst (playlists s ! (draw1 mod length (playlists s))),
                                       currentIndexTrack := int (draw2 mod length (snd (playlists s ! (draw1 mod length (playlists s))))),
                                       gui_currentTrack := Some track,
                                       events := events s @ [Play (Some track)]\<rparr>))))))"
  proof (cases "queue s")
    case (Cons t rest)
    then show ?thesis by (simp add: playNext_def isEmpty_def playNextFromQueue_front)
  next
    case Nil
    show ?thesis
    proof (cases "hasPlaylistSelected s")
      case False
      with Nil show ?thesis by (simp add: playNext_def isEmpty_def)
    next
      case True
      show ?thesis
      proof (cases "mode s")
        case Sequential
        with Nil True show ?thesis
          by (simp add: playNext_def isEmpty_def playNextFromPlaylist_Sequential_exact)
      next
        case Shuffle
        with Nil True show ?thesis
          by (simp add: playNext_def isEmpty_def playNextFromPlaylist_Shuffle_exact)
      next
        case ShuffleAll
        with Nil True show ?thesis
          by (simp add: playNext_def isEmpty_def playNextFromPlaylist_ShuffleAll_exact)
      qed
    qed
  qed
next
  assume a: "queue s = [] \<and> hasPlaylistSelected s \<and> mode s = ShuffleAll \<and> playlists s \<noteq> []
        \<and> distinct (map fst (playlists s))
        \<and> snd (playlists s ! (draw1 mod length (playlists s))) \<noteq> []"
  then have "playNextFromPlaylist draw1 draw2 s =
          Inr (s\<lparr>currentPlaylist := fst (playlists s ! (draw1 mod length (playlists s))),
               currentIndexTrack := int (draw2 mod length (snd (playlists s ! (draw1 mod length (playlists s))))),
               gui_currentTrack := Some (snd (playlists s ! (draw1 mod length (playlists s))) ! (draw2 mod length (snd (playlists s ! (draw1 mod length (playlists s)))))),
               events := events s @
                 [Play (Some (snd (playlists s ! (draw1 mod length (playlists s))) ! (draw2 mod length (snd (playlists s ! (draw1 mod length (playlists s)))))))]\<rparr>)"
    by (intro playNextFromPlaylist_ShuffleAll_distinct) simp_all
  with a show "playNext draw1 draw2 s =
          Inr (s\<lparr>currentPlaylist := fst (playlists s ! (draw1 mod length (playlists s))),
               currentIndexTrack := int (draw2 mod length (snd (playlists s ! (draw1 mod length (playlists s))))),
               gui_currentTrack := Some (snd (playlists s ! (draw1 mod length (playlists s))) ! (draw2 mod length (snd (playlists s ! (draw1 mod length (playlists s)))))),
               events := events s @
                 [Play (Some (snd (playlists s ! (draw1 mod length (playlists s))) ! (draw2 mod length (snd (playlists s ! (draw1 mod length (playlists s)))))))]\<rparr>)"
    by (simp add: playNext_def isEmpty_def)
next
  show "playNext draw1 draw2 s \<noteq> Inl EmptyQueue"
  proof (cases "queue s")
    case Nil
    then show ?thesis
      by (simp add: playNext_def isEmpty_def playNextFromPlaylist_not_EmptyQueue)
  next
    case (Cons t rest)
    then show ?thesis
      by (simp add: playNext_def isEmpty_def playNextFromQueue_front)
  qed
qed

theorem playNext_queue_first_witness:
  "playNext 0 0 (ui0\<lparr>queue := three_tracks\<rparr>) =
     Inr (ui0\<lparr>queue := tl three_tracks, gui_currentTrack := Some (hd three_tracks),
              events := [Play (Some (hd three_tracks))],
              queueView := [''John Coltrane - Naima'', ''Wayne Shorter - Footprints'']\<rparr>)
   \<and> playNext 0 0 ui0 =
       Inr (ui0\<lparr>currentIndexTrack := 0, gui_currentTrack := Some (hd three_tracks),
                events := [Play (Some (hd three_tracks))]\<rparr>)
   \<and> playNext 4 0 (ui0\<lparr>mode := Shuffle\<rparr>) =
       Inr (ui0\<lparr>mode := Shuffle, currentIndexTrack := 1,
                gui_currentTrack := Some (three_tracks ! 1),
                events := [Play (Some (three_tracks ! 1))]\<rparr>)
   \<and> playNext 1 5 (ui0\<lparr>mode := ShuffleAll\<rparr>) =
       Inr (ui0\<lparr>mode := ShuffleAll, currentPlaylist := ''jazz'', currentIndexTrack := 2,
                gui_currentTrack := Some (three_tracks ! 2),
                events := [Play (Some (three_tracks ! 2))]\<rparr>)
   \<and> playNext 0 0 (ui0\<lparr>currentPlaylist := []\<rparr>) = Inr (ui0\<lparr>currentPlaylist := []\<rparr>)"
proof -
  have a: "playNext 0 0 (ui0\<lparr>queue := three_tracks\<rparr>) =
     Inr (ui0\<lparr>queue := tl three_tracks, gui_currentTrack := Some (hd three_tracks),
              events := [Play (Some (hd three_tracks))],
              queueView := [''John Coltrane - Naima'', ''Wayne Shorter - Footprints'']\<rparr>)"
    using playNext_queue_first [of 0 0 "ui0\<lparr>queue := three_tracks\<rparr>", THEN conjunct1]
    by (simp add: ui0_def three_tracks_def)
  have b: "playNext 0 0 ui0 =
       Inr (ui0\<lparr>currentIndexTrack := 0, gui_currentTrack := Some (hd three_tracks),
                events := [Play (Some (hd three_tracks))]\<rparr>)"
    using playNext_queue_first [of 0 0 ui0, THEN conjunct1]
    by (simp add: ui0_def three_tracks_def hasPlaylistSelected_def getNextTrack_def Tracks_def)
  have c: "playNext 4 0 (ui0\<lparr>mode := Shuffle\<rparr>) =
       Inr (ui0\<lparr>mode := Shuffle, currentIndexTrack := 1,
                gui_currentTrack := Some (three_tracks ! 1),
                events := [Play (Some (three_tracks ! 1))]\<rparr>)"
    using playNext_queue_first [of 4 0 "ui0\<lparr>mode := Shuffle\<rparr>", THEN conjunct1]
    by (simp add: ui0_def three_tracks_def hasPlaylistSelected_def)
  have hyp: "queue (ui0\<lparr>mode := ShuffleAll\<rparr>) = []
      \<and> hasPlaylistSelected (ui0\<lparr>mode := ShuffleAll\<rparr>)
      \<and> mode (ui0\<lparr>mode := ShuffleAll\<rparr>) = ShuffleAll
      \<and> playlists (ui0\<lparr>mode := ShuffleAll\<rparr>) \<noteq> []
      \<and> distinct (map fst (playlists (ui0\<lparr>mode := ShuffleAll\<rparr>)))
      \<and> snd (playlists (ui0\<lparr>mode := ShuffleAll\<rparr>)
               ! (1 mod length (playlists (ui0\<lparr>mode := ShuffleAll\<rparr>)))) \<noteq> []"
    by (simp add: ui0_def three_tracks_def hasPlaylistSelected_def)
  have d: "playNext 1 5 (ui0\<lparr>mode := ShuffleAll\<rparr>) =
       Inr (ui0\<lparr>mode := ShuffleAll, currentPlaylist := ''jazz'', currentIndexTrack := 2,
                gui_currentTrack := Some (three_tracks ! 2),
                events := [Play (Some (three_tracks ! 2))]\<rparr>)"
    using playNext_queue_first [of 1 5 "ui0\<lparr>mode := ShuffleAll\<rparr>", THEN conjunct2,
        THEN conjunct1, rule_format, OF hyp]
    by (simp add: ui0_def three_tracks_def)
  have e: "playNext 0 0 (ui0\<lparr>currentPlaylist := []\<rparr>) = Inr (ui0\<lparr>currentPlaylist := []\<rparr>)"
    using playNext_queue_first [of 0 0 "ui0\<lparr>currentPlaylist := []\<rparr>", THEN conjunct1]
    by (simp add: ui0_def hasPlaylistSelected_def)
  from a b c d e show ?thesis by blast
qed

theorem playNext_empty_playlist_plays_nothing:
  "playNext 0 0 (ui0\<lparr>currentPlaylist := ''empty''\<rparr>) = Inl (Panic ''playlist track out of range'')
   \<and> playNext 0 0 (ui0\<lparr>mode := ShuffleAll\<rparr>) = Inl (Panic ''invalid argument to Intn'')"
  by (simp add: playNext_def isEmpty_def hasPlaylistSelected_def
      playNextFromPlaylist_Sequential_exact playNextFromPlaylist_ShuffleAll_exact ui0_def)

section \<open>The key buffer\<close>

lemma keyPressed_match:
  assumes "map_of (SequentialKeys keyboard)
             (v @ '' '' @ keyCombination (multipleKeysBuffer s @ [key])) = Some handler"
  shows "keyPressed keyboard exec key v s =
           (fst (exec handler v (multipleKeysNumber s) (world s)),
            s\<lparr>multipleKeysBuffer := [], multipleKeysNumber := 0,
              world := snd (exec handler v (multipleKeysNumber s) (world s))\<rparr>)"
  using assms by (subst keyPressed.simps) (simp add: Let_def split: prod.splits)

lemma keyPressed_buffered:
  assumes "multipleKeysBuffer s = []"
    and "map_of (SequentialKeys keyboard) (v @ '' '' @ string_of_rune key) = None"
  shows "keyPressed keyboard exec key v s = (None, s\<lparr>multipleKeysBuffer := [key]\<rparr>)"
  using assms by (subst keyPressed.simps) (simp add: Let_def keyCombination_def)

lemma keyPressed_fallback:
  assumes "multipleKeysBuffer s \<noteq> []"
    and "map_of (SequentialKeys keyboard)
           (v @ '' '' @ keyCombination (multipleKeysBuffer s @ [key])) = None"
  shows "keyPressed keyboard exec key v s =
           keyPressed keyboard exec ((multipleKeysBuffer s @ [key]) ! 1) v
             (s\<lparr>multipleKeysBuffer := []\<rparr>)"
proof -
  from assms(1) have "2 \<le> length (multipleKeysBuffer s @ [key])"
    by (cases "multipleKeysBuffer s") simp_all
  with assms(2) show ?thesis
    by (subst keyPressed.simps) (simp add: Let_def)
qed

lemma keyCombination_single: "keyCombination [key] = string_of_rune key"
  by (simp add: keyCombination_def)

lemma keyCombination_pair:
  "keyCombination (k1 # k2 # rest) = string_of_rune k1 @ string_of_rune k2"
  by (simp add: keyCombination_def)

text \<open>From the empty buffer the key is served or buffered.\<close>

lemma keyPressed_from_empty:
  assumes "multipleKeysBuffer s = []"
  shows "multipleKeysBuffer (snd (keyPressed keyboard exec key v s)) = []
         \<or> multipleKeysBuffer (snd (keyPressed keyboard exec key v s)) = [key]"
proof (cases "map_of (SequentialKeys keyboard) (v @ '' '' @ string_of_rune key)")
  case None
  with assms show ?thesis by (simp add: keyPressed_buffered)
next
  case (Some handler)
  with assms have "map_of (SequentialKeys keyboard)
             (v @ '' '' @ keyCombination (multipleKeysBuffer s @ [key])) = Some handler"
    by (simp add: keyCombination_single)
  then show ?thesis by (simp add: keyPressed_match)
qed

lemma keyPressed_buffer_le_1:
  "length (multipleKeysBuffer (snd (keyPressed keyboard exec key v s))) \<le> 1"
proof (cases "map_of (SequentialKeys keyboard)
                (v @ '' '' @ keyCombination (multipleKeysBuffer s @ [key]))")
  case (Some handler)
  then show ?thesis by (simp add: keyPressed_match)
next
  case None
  show ?thesis
  proof (cases "multipleKeysBuffer s = []")
    case True
    with keyPressed_from_empty [OF True, of keyboard exec key v] show ?thesis by auto
  next
    case False
    have "multipleKeysBuffer (s\<lparr>multipleKeysBuffer := []\<rparr>) = []" by simp
    from keyPressed_from_empty [OF this, of keyboard exec "(multipleKeysBuffer s @ [key]) ! 1" v]
    show ?thesis by (auto simp: keyPressed_fallback [OF False None])
  qed
qed


lemma keyPressed_buffers_match:
  assumes "map_of (SequentialKeys keyboard) (v @ '' '' @ keyCombination (buf0 @ [key])) = Some handler"
  shows "keyPressed_buffers keyboard key v buf0 = [buf0 @ [key], []]"
  using assms by (subst keyPressed_buffers.simps) (simp add: Let_def)

lemma keyPressed_buffers_buffered:
  assumes "map_of (SequentialKeys keyboard) (v @ '' '' @ string_of_rune key) = None"
  shows "keyPressed_buffers keyboard key v [] = [[key]]"
  using assms by (subst keyPressed_buffers.simps) (simp add: Let_def keyCombination_def)

lemma keyPressed_buffers_fallback:
  assumes "buf0 \<noteq> []"
    and "map_of (SequentialKeys keyboard) (v @ '' '' @ keyCombination (buf0 @ [key])) = None"
  shows "keyPressed_buffers keyboard key v buf0 =
           [buf0 @ [key], []] @ keyPressed_buffers keyboard ((buf0 @ [key]) ! 1) v []"
proof -
  from assms(1) have "2 \<le> length (buf0 @ [key])"
    by (cases buf0) simp_all
  with assms(2) show ?thesis
    by (subst keyPressed_buffers.simps) (simp add: Let_def)
qed

lemma keyPressed_buffers_from_empty:
  "keyPressed_buffers keyboard key v [] = [[key], []]
   \<or> keyPressed_buffers keyboard key v [] = [[key]]"
proof (cases "map_of (SequentialKeys keyboard) (v @ '' '' @ string_of_rune key)")
  case None
  then show ?thesis by (simp add: keyPressed_buffers_buffered)
next
  case (Some handler)
  then have "map_of (SequentialKeys keyboard) (v @ '' '' @ keyCombination ([] @ [key])) = Some handler"
    by (simp add: keyCombination_single)
  from keyPressed_buffers_match [OF this] show ?thesis by simp
qed

lemma keyPressed_buffers_last_empty:
  assumes "multipleKeysBuffer s = []"
  shows "last (keyPressed_buffers keyboard key v []) =
           multipleKeysBuffer (snd (keyPressed keyboard exec key v s))"
proof (cases "map_of (SequentialKeys keyboard) (v @ '' '' @ string_of_rune key)")
  case None
  with assms show ?thesis by (simp add: keyPressed_buffers_buffered keyPressed_buffered)
next
  case (Some handler)
  then have a: "map_of (SequentialKeys keyboard) (v @ '' '' @ keyCombination ([] @ [key])) = Some handler"
    by (simp add: keyCombination_single)
  with assms have b: "map_of (SequentialKeys keyboard)
      (v @ '' '' @ keyCombination (multipleKeysBuffer s @ [key])) = Some handler" by simp
  show ?thesis
    by (simp add: keyPressed_buffers_match [OF a] keyPressed_match [OF b])
qed

lemma keyPressed_buffers_last:
  "last (keyPressed_buffers keyboard key v (multipleKeysBuffer s)) =
     multipleKeysBuffer (snd (keyPressed keyboard exec key v s))"
proof (cases "map_of (SequentialKeys keyboard)
                (v @ '' '' @ keyCombination (multipleKeysBuffer s @ [key]))")
  case (Some handler)
  then show ?thesis by (simp add: keyPressed_match keyPressed_buffers_match)
next
  case None
  show ?thesis
  proof (cases "multipleKeysBuffer s = []")
    case True
    then show ?thesis using keyPressed_buffers_last_empty [OF True] by simp
  next
    case False
    have e: "multipleKeysBuffer (s\<lparr>multipleKeysBuffer := []\<rparr>) = []" by simp
    have ne: "keyPressed_buffers keyboard ((multipleKeysBuffer s @ [key]) ! 1) v [] \<noteq> []"
      using keyPressed_buffers_from_empty [of keyboard "(multipleKeysBuffer s @ [key]) ! 1" v]
      by auto
    show ?thesis
      using keyPressed_buffers_last_empty [OF e, of keyboard "(multipleKeysBuffer s @ [key]) ! 1" v exec] ne
      by (simp add: keyPressed_fallback [OF False None] keyPressed_buffers_fallback [OF False None])
  qed
qed

lemma keyPressed_buffers_le_2:
  assumes "length buf0 \<le> 1"
  shows "\<forall>b \<in> set (keyPressed_buffers keyboard key v buf0). length b \<le> 2"
proof (cases "map_of (SequentialKeys keyboard) (v @ '' '' @ keyCombination (buf0 @ [key]))")
  case (Some handler)
  with assms show ?thesis by (simp add: keyPressed_buffers_match)
next
  case None
  show ?thesis
  proof (cases "buf0 = []")
    case True
    with keyPressed_buffers_from_empty [of keyboard key v] show ?thesis by auto
  next
    case False
    from keyPressed_buffers_from_empty [of keyboard "(buf0 @ [key]) ! 1" v] assms
    show ?thesis by (auto simp: keyPressed_buffers_fallback [OF False None])
  qed
qed

lemma keyPressed_buffers_cleared:
  assumes "buf0 \<noteq> []"
  shows "[] \<in> set (keyPressed_buffers keyboard key v buf0)"
proof (cases "map_of (SequentialKeys keyboard) (v @ '' '' @ keyCombination (buf0 @ [key]))")
  case (Some handler)
  then show ?thesis by (simp add: keyPressed_buffers_match)
next
  case None
  then show ?thesis by (simp add: keyPressed_buffers_fallback [OF assms None])
qed

text \<open>
  C10. After every call of \<open>keyPressed\<close> the buffer holds at most one key. The buffer is
  cleared when a handler is called, at once or in the fallback, and when a buffer of two
  keys does not match; with at most one key buffered before the call, no value the buffer
  takes during the call is longer than two keys.
\<close>

theorem keyPressed_buffer_invariant:
  "length (multipleKeysBuffer (snd (keyPressed keyboard exec key v s))) \<le> 1
   \<and> last (keyPressed_buffers keyboard key v (multipleKeysBuffer s)) =
       multipleKeysBuffer (snd (keyPressed keyboard exec key v s))
   \<and> (length (multipleKeysBuffer s) \<le> 1 \<longrightarrow>
        (\<forall>b \<in> set (keyPressed_buffers keyboard key v (multipleKeysBuffer s)). length b \<le> 2))
   \<and> (map_of (SequentialKeys keyboard)
          (v @ '' '' @ keyCombination (multipleKeysBuffer s @ [key])) \<noteq> None \<longrightarrow>
        multipleKeysBuffer (snd (keyPressed keyboard exec key v s)) = [])
   \<and> (multipleKeysBuffer s \<noteq> [] \<longrightarrow>
        [] \<in> set (keyPressed_buffers keyboard key v (multipleKeysBuffer s)))"
proof (intro conjI impI)
  show "length (multipleKeysBuffer (snd (keyPressed keyboard exec key v s))) \<le> 1"
    by (rule keyPressed_buffer_le_1)
  show "last (keyPressed_buffers keyboard key v (multipleKeysBuffer s)) =
       multipleKeysBuffer (snd (keyPressed keyboard exec key v s))"
    by (rule keyPressed_buffers_last)
  show "\<forall>b \<in> set (keyPressed_buffers keyboard key v (multipleKeysBuffer s)). length b \<le> 2"
    if "length (multipleKeysBuffer s) \<le> 1"
    using that by (rule keyPressed_buffers_le_2)
  show "multipleKeysBuffer (snd (keyPressed keyboard exec key v s)) = []"
    if "map_of (SequentialKeys keyboard)
          (v @ '' '' @ keyCombination (multipleKeysBuffer s @ [key])) \<noteq> None"
    using that by (auto simp: keyPressed_match)
  show "[] \<in> set (keyPressed_buffers keyboard key v (multipleKeysBuffer s))"
    if "multipleKeysBuffer s \<noteq> []"
    using that by (rule keyPressed_buffers_cleared)
qed

text \<open>
  C4, as the code has it. A buffer of two keys that matches nothing is cleared and the
  second key is looked up alone. When that matches, its handler is called and the buffer
  is left empty; the handler's error is what \<open>keyPressed\<close> returns. When it does not
  match, no handler is called, nil is returned, and the second key stays in the buffer.
\<close>

theorem keyPressed_fallback_recheck:
  assumes "multipleKeysBuffer s = [k1]"
    and "map_of (SequentialKeys keyboard) (v @ '' '' @ string_of_rune k1 @ string_of_rune k2) = None"
  shows "(map_of (SequentialKeys keyboard) (v @ '' '' @ string_of_rune k2) = None \<longrightarrow>
            keyPressed keyboard exec k2 v s = (None, s\<lparr>multipleKeysBuffer := [k2]\<rparr>))
         \<and> (\<forall>handler. map_of (SequentialKeys keyboard) (v @ '' '' @ string_of_rune k2) = Some handler \<longrightarrow>
               keyPressed keyboard exec k2 v s =
                 (fst (exec handler v (multipleKeysNumber s) (world s)),
                  s\<lparr>multipleKeysBuffer := [], multipleKeysNumber := 0,
                    world := snd (exec handler v (multipleKeysNumber s) (world s))\<rparr>))"
proof -
  from assms have ne: "multipleKeysBuffer s \<noteq> []"
    and none: "map_of (SequentialKeys keyboard)
           (v @ '' '' @ keyCombination (multipleKeysBuffer s @ [k2])) = None"
    by (simp_all add: keyCombination_pair)
  have step: "keyPressed keyboard exec k2 v s =
                keyPressed keyboard exec k2 v (s\<lparr>multipleKeysBuffer := []\<rparr>)"
    using keyPressed_fallback [OF ne none, of exec] assms(1) by simp
  show ?thesis
  proof (intro conjI allI impI)
    assume "map_of (SequentialKeys keyboard) (v @ '' '' @ string_of_rune k2) = None"
    then show "keyPressed keyboard exec k2 v s = (None, s\<lparr>multipleKeysBuffer := [k2]\<rparr>)"
      by (simp add: step keyPressed_buffered)
  next
    fix handler
    assume "map_of (SequentialKeys keyboard) (v @ '' '' @ string_of_rune k2) = Some handler"
    then have "map_of (SequentialKeys keyboard)
        (v @ '' '' @ keyCombination (multipleKeysBuffer (s\<lparr>multipleKeysBuffer := []\<rparr>) @ [k2]))
          = Some handler"
      by (simp add: keyCombination_single)
    from keyPressed_match [OF this, of exec]
    show "keyPressed keyboard exec k2 v s =
                 (fst (exec handler v (multipleKeysNumber s) (world s)),
                  s\<lparr>multipleKeysBuffer := [], multipleKeysNumber := 0,
                    world := snd (exec handler v (multipleKeysNumber s) (world s))\<rparr>)"
      by (simp add: step)
  qed
qed

text \<open>
  C6. With \<open>dd\<close> bound to the remove-track handler in the view and \<open>d\<close> alone bound to
  nothing, as the default keys have it: from the empty buffer the first \<open>d\<close> calls no
  handler and is buffered; the second \<open>d\<close> calls the remove-track handler once and
  leaves the buffer empty.
\<close>

theorem dd_fires_on_second_d:
  assumes "map_of (SequentialKeys keyboard) (v @ '' dd'') = Some removeTrackCommand"
    and "map_of (SequentialKeys keyboard) (v @ '' d'') = None"
    and "multipleKeysBuffer s = []"
  shows "keyPressed keyboard exec (rune_of_char CHR ''d'') v s =
           (None, s\<lparr>multipleKeysBuffer := [rune_of_char CHR ''d'']\<rparr>)
         \<and> keyPressed keyboard exec (rune_of_char CHR ''d'') v
             (s\<lparr>multipleKeysBuffer := [rune_of_char CHR ''d'']\<rparr>) =
           (fst (exec removeTrackCommand v (multipleKeysNumber s) (world s)),
            s\<lparr>multipleKeysBuffer := [], multipleKeysNumber := 0,
              world := snd (exec removeTrackCommand v (multipleKeysNumber s) (world s))\<rparr>)"
proof
  have d: "string_of_rune (rune_of_char CHR ''d'') = ''d''"
    by (simp add: string_of_rune_def rune_of_char_def char_of_def)
  from assms(2,3) show "keyPressed keyboard exec (rune_of_char CHR ''d'') v s =
           (None, s\<lparr>multipleKeysBuffer := [rune_of_char CHR ''d'']\<rparr>)"
    by (simp add: keyPressed_buffered d)
  have "map_of (SequentialKeys keyboard)
          (v @ '' '' @ keyCombination
             (multipleKeysBuffer (s\<lparr>multipleKeysBuffer := [rune_of_char CHR ''d'']\<rparr>)
                @ [rune_of_char CHR ''d''])) = Some removeTrackCommand"
    using assms(1) by (simp add: keyCombination_pair d)
  from keyPressed_match [OF this, of exec]
  show "keyPressed keyboard exec (rune_of_char CHR ''d'') v
             (s\<lparr>multipleKeysBuffer := [rune_of_char CHR ''d'']\<rparr>) =
           (fst (exec removeTrackCommand v (multipleKeysNumber s) (world s)),
            s\<lparr>multipleKeysBuffer := [], multipleKeysNumber := 0,
              world := snd (exec removeTrackCommand v (multipleKeysNumber s) (world s))\<rparr>)"
    by simp
qed

section \<open>The repeat counter, and the dispatcher on the default keys\<close>

text \<open>The default keys, view by view, in the order \<open>keybindings\<close> configures them.\<close>

lemma keyboard0_table:
  "SequentialKeys keyboard0 =
     [(''tracks p'', pauseTrackCommand),
      (''tracks s'', setShuffleMode),
      (''tracks S'', setShuffleAllMode),
      (''tracks >'', nextTrackCommand),
      (''tracks <'', replayTrackCommand),
      (''tracks /'', enableSearchInputCommand),
      (''tracks r'', repeatPlayingTrackCommand),
      (''tracks q'', quit),
      (''tracks gg'', goToFirstLineCommand),
      (''tracks G'', goToLastLineCommand),
      (''tracks '' @ [CHR 0xEF, CHR 0xBF, CHR 0xAD], cursorUp),
      (''tracks k'', cursorUp),
      (''tracks '' @ [CHR 0xEF, CHR 0xBF, CHR 0xAC], cursorDown),
      (''tracks j'', cursorDown),
      (''tracks dd'', removeTrackCommand),
      (''tracks D'', removeAllTracksCommand),
      (''playlists p'', pauseTrackCommand),
      (''playlists s'', setShuffleMode),
      (''playlists S'', setShuffleAllMode),
      (''playlists >'', nextTrackCommand),
      (''playlists <'', replayTrackCommand),
      (''playlists /'', enableSearchInputCommand),
      (''playlists r'', repeatPlayingTrackCommand),
      (''playlists q'', quit),
      (''playlists gg'', goToFirstLineCommand),
      (''playlists G'', goToLastLineCommand),
      (''playlists '' @ [CHR 0xEF, CHR 0xBF, CHR 0xAD], cursorUp),
      (''playlists k'', cursorUp),
      (''playlists '' @ [CHR 0xEF, CHR 0xBF, CHR 0xAC], cursorDown),
      (''playlists j'', cursorDown),
      (''playlists dd'', removeTrackCommand),
      (''playlists D'', removeAllTracksCommand),
      (''queue p'', pauseTrackCommand),
      (''queue s'', setShuffleMode),
      (''queue S'', setShuffleAllMode),
      (''queue >'', nextTrackCommand),
      (''queue <'', replayTrackCommand),
      (''queue /'', enableSearchInputCommand),
      (''queue r'', repeatPlayingTrackCommand),
      (''queue q'', quit),
      (''queue gg'', goToFirstLineCommand),
      (''queue G'', goToLastLineCommand),
      (''queue '' @ [CHR 0xEF, CHR 0xBF, CHR 0xAD], cursorUp),
      (''queue k'', cursorUp),
      (''queue '' @ [CHR 0xEF, CHR 0xBF, CHR 0xAC], cursorDown),
      (''queue j'', cursorDown),
      (''queue dd'', removeTrackCommand),
      (''queue D'', removeAllTracksCommand),
      (''tracks u'', queueTrackCommand),
      (''playlists u'', queuePlaylistCommand),
      (''tracks  '', playSelectedTrack),
      (''tracks '' @ [CHR 0x0D], playSelectedTrack),
      (''tracks '' @ [CHR 0xEF, CHR 0xBF, CHR 0xAB], mainNextViewLeft),
      (''tracks h'', mainNextViewLeft),
      (''queue '' @ [CHR 0xEF, CHR 0xBF, CHR 0xAB], nextView),
      (''queue h'', nextView),
      (''playlists '' @ [CHR 0xEF, CHR 0xBF, CHR 0xAA], nextView),
      (''playlists l'', nextView),
      (''tracks '' @ [CHR 0xEF, CHR 0xBF, CHR 0xAA], mainNextViewRight),
      (''tracks l'', mainNextViewRight),
      (''playlists  '', openCloseFolderCommand),
      (''tracks i'', artistAlbums),
      (''queue c'', enableCreatePlaylistCommand)]"
  unfolding keyboard0_def keybindings_def per_view_commands_def Let_def foldl.simps prod.case
  by code_simp

lemma default_keys_dd:
  "map_of (SequentialKeys keyboard0) (v @ '' dd'') =
     (if v \<in> {''tracks'', ''playlists'', ''queue''} then Some removeTrackCommand else None)
   \<and> map_of (SequentialKeys keyboard0) (v @ '' d'') = None"
  by (simp add: keyboard0_table append_eq_Cons_conv Cons_eq_append_conv)

lemma rune_d: "string_of_rune 100 = ''d''"
  by (simp add: string_of_rune_def char_of_def)

lemma rune_x: "string_of_rune 120 = ''x''"
  by (simp add: string_of_rune_def char_of_def)

lemma rune_D: "string_of_rune 68 = ''D''"
  by (simp add: string_of_rune_def char_of_def)






theorem dd_fires_on_second_d_witness:
  "keyPressed keyboard0 log_exec 100 ''tracks''
     \<lparr>multipleKeysBuffer = [], multipleKeysNumber = 0, world = []\<rparr>
   = (None, \<lparr>multipleKeysBuffer = [100], multipleKeysNumber = 0, world = []\<rparr>)
   \<and> keyPressed keyboard0 log_exec 100 ''tracks''
     \<lparr>multipleKeysBuffer = [100], multipleKeysNumber = 0, world = []\<rparr>
   = (None, \<lparr>multipleKeysBuffer = [], multipleKeysNumber = 0,
             world = [(removeTrackCommand, ''tracks'', 0)]\<rparr>)"
  using dd_fires_on_second_d [of keyboard0 "''tracks''"
      "\<lparr>multipleKeysBuffer = [], multipleKeysNumber = 0, world = []\<rparr>" log_exec]
  by (simp add: keyboard0_table rune_of_char_def log_exec_def)

theorem keyPressed_fallback_recheck_witness:
  "keyPressed keyboard0 log_exec 120 ''tracks''
     \<lparr>multipleKeysBuffer = [100], multipleKeysNumber = 7, world = []\<rparr>
   = (None, \<lparr>multipleKeysBuffer = [120], multipleKeysNumber = 7, world = []\<rparr>)
   \<and> keyPressed keyboard0 log_exec 68 ''tracks''
     \<lparr>multipleKeysBuffer = [100], multipleKeysNumber = 7, world = []\<rparr>
   = (None, \<lparr>multipleKeysBuffer = [], multipleKeysNumber = 0,
             world = [(removeAllTracksCommand, ''tracks'', 7)]\<rparr>)"
  using keyPressed_fallback_recheck [of "\<lparr>multipleKeysBuffer = [100], multipleKeysNumber = 7, world = []\<rparr>"
      100 keyboard0 "''tracks''" 120 log_exec]
    keyPressed_fallback_recheck [of "\<lparr>multipleKeysBuffer = [100], multipleKeysNumber = 7, world = []\<rparr>"
      100 keyboard0 "''tracks''" 68 log_exec]
  by (simp add: keyboard0_table rune_d rune_D rune_x log_exec_def)

theorem keyPressed_failed_recheck_keeps_key:
  "multipleKeysBuffer (snd (keyPressed keyboard0 log_exec 120 ''tracks''
     \<lparr>multipleKeysBuffer = [100], multipleKeysNumber = 0, world = []\<rparr>)) = [120]"
proof -
  have ne: "multipleKeysBuffer
      \<lparr>multipleKeysBuffer = [100], multipleKeysNumber = 0, world = ([] :: (keyHandler \<times> string \<times> 64 word) list)\<rparr> \<noteq> []"
    by simp
  have none: "map_of (SequentialKeys keyboard0)
      (''tracks'' @ '' '' @ keyCombination (multipleKeysBuffer
         \<lparr>multipleKeysBuffer = [100], multipleKeysNumber = 0, world = ([] :: (keyHandler \<times> string \<times> 64 word) list)\<rparr> @ [120])) = None"
    by (simp add: keyboard0_table keyCombination_pair rune_d rune_x)
  have single: "map_of (SequentialKeys keyboard0) (''tracks'' @ '' '' @ string_of_rune 120) = None"
    by (simp add: keyboard0_table rune_x)
  show ?thesis
    by (simp add: keyPressed_fallback [OF ne none] keyPressed_buffered [OF _ single])
qed

theorem keyPressed_buffer_invariant_witness:
  "length (multipleKeysBuffer (snd (keyPressed keyboard0 log_exec 100 ''tracks''
      \<lparr>multipleKeysBuffer = [120], multipleKeysNumber = 0, world = []\<rparr>))) \<le> 1
   \<and> last (keyPressed_buffers keyboard0 100 ''tracks'' [120]) =
       multipleKeysBuffer (snd (keyPressed keyboard0 log_exec 100 ''tracks''
         \<lparr>multipleKeysBuffer = [120], multipleKeysNumber = 0, world = []\<rparr>))
   \<and> [] \<in> set (keyPressed_buffers keyboard0 100 ''tracks'' [120])
   \<and> multipleKeysBuffer (snd (keyPressed keyboard0 log_exec 100 ''tracks''
      \<lparr>multipleKeysBuffer = [100], multipleKeysNumber = 0, world = []\<rparr>)) = []"
  using keyPressed_buffer_invariant [of keyboard0 log_exec 100 "''tracks''"
      "\<lparr>multipleKeysBuffer = [120], multipleKeysNumber = 0, world = []\<rparr>"]
    keyPressed_buffer_invariant [of keyboard0 log_exec 100 "''tracks''"
      "\<lparr>multipleKeysBuffer = [100], multipleKeysNumber = 0, world = []\<rparr>"]
  by (simp add: keyboard0_table keyCombination_pair rune_d)

section \<open>The event loop of the player\<close>

lemma play_not_available:
  "\<not> isTrackAvailable track \<Longrightarrow>
   play (Some track) s = Inr (s\<lparr>effects := effects s @ [EventsSetStatus ''Not available'']\<rparr>)"
  by (simp add: play_def)

lemma play_load_error:
  "isTrackAvailable track \<Longrightarrow> loadError track = Some err \<Longrightarrow>
   play (Some track) s = Inl (Fatal err)"
  by (simp add: play_def)

lemma waitForEvents_append:
  "waitForEvents ext (xs @ ys) s =
     (case waitForEvents ext xs s of Inl c \<Rightarrow> Inl c | Inr s' \<Rightarrow> waitForEvents ext ys s')"
  by (induction xs arbitrary: s) (simp_all split: sum.splits)

text \<open>
  C9. For a track that is not available, \<open>play\<close> sends the status \<open>Not available\<close> and
  returns: nothing is loaded or played, the current track and the paused flag stay, and
  no next-play is sent. The user interface, on that status, shows the message and leaves
  its cursor, its current track and its queue as they are.
\<close>

theorem play_unavailable_only_status:
  assumes "Availability track \<noteq> TrackAvailabilityAvailable"
  shows "play (Some track) s = Inr (s\<lparr>effects := effects s @ [EventsSetStatus ''Not available'']\<rparr>)
         \<and> waitForEvents ext [PlayUpdates (Some track)] s =
             Inr (s\<lparr>effects := effects s @ [EventsSetStatus ''Not available'']\<rparr>)
         \<and> (\<forall>s'. play (Some track) s = Inr s' \<longrightarrow>
               currentTrack s' = currentTrack s \<and> paused s' = paused s
               \<and> EventsNextPlay \<notin> set (drop (length (effects s)) (effects s'))
               \<and> PlayerPlay \<notin> set (drop (length (effects s)) (effects s'))
               \<and> PlayerLoad track \<notin> set (drop (length (effects s)) (effects s')))
         \<and> currentPlaylist (gui_updateStatus Sprintf getModeAsString ''Not available'' u) = currentPlaylist u
         \<and> currentIndexTrack (gui_updateStatus Sprintf getModeAsString ''Not available'' u)
             = currentIndexTrack u
         \<and> gui_currentTrack (gui_updateStatus Sprintf getModeAsString ''Not available'' u)
             = gui_currentTrack u
         \<and> queue (gui_updateStatus Sprintf getModeAsString ''Not available'' u) = queue u
         \<and> events (gui_updateStatus Sprintf getModeAsString ''Not available'' u) = events u"
proof -
  from assms have eq: "play (Some track) s =
      Inr (s\<lparr>effects := effects s @ [EventsSetStatus ''Not available'']\<rparr>)"
    by (simp add: play_not_available isTrackAvailable_def)
  then show ?thesis
    by (auto simp: gui_updateStatus_def)
qed

theorem play_unavailable_only_status_witness:
  "play (Some footprints) (spotify0\<lparr>currentTrack := Some naima\<rparr>) =
     Inr (spotify0\<lparr>currentTrack := Some naima, effects := [EventsSetStatus ''Not available'']\<rparr>)
   \<and> currentIndexTrack (gui_updateStatus (\<lambda>format operand. operand) (\<lambda>m. []) ''Not available'' ui0) = 2"
  using play_unavailable_only_status [of footprints "spotify0\<lparr>currentTrack := Some naima\<rparr>"
      absent0 "\<lambda>format operand. operand" "\<lambda>m. []" ui0]
  by (simp add: footprints_def spotify0_def ui0_def)

text \<open>
  C3, as the code has it. When \<open>player.Load\<close> returns an error, \<open>play\<close> calls
  \<open>log.Fatal\<close>: the error is logged and the process exits. No status is sent, and the
  loop serves none of the signals that follow. So it is on each way into \<open>play\<close>: a
  play signal, a replay, and the pause signal that resumes a paused track.
\<close>

theorem play_load_failure_is_fatal:
  assumes "Availability track = TrackAvailabilityAvailable" and "loadError track = Some err"
  shows "play (Some track) s = Inl (Fatal err)
         \<and> waitForEvents ext (PlayUpdates (Some track) # rest) s = Inl (Fatal err)
         \<and> (currentTrack s = Some track \<longrightarrow>
               waitForEvents ext (ReplayUpdates # rest) s = Inl (Fatal err))
         \<and> (currentTrack s = Some track \<and> paused s \<longrightarrow>
               waitForEvents ext (PauseUpdates # rest) s = Inl (Fatal err))"
  using assms
  by (simp add: play_load_error isTrackAvailable_def playCurrentTrack_def pause_def
      isPausedOrPlaying_def)

theorem play_load_failure_is_fatal_witness:
  "play (Some broken) spotify0 = Inl (Fatal ''track load failed'')
   \<and> waitForEvents absent0 [PlayUpdates (Some broken), EndOfTrackUpdates] spotify0 =
       Inl (Fatal ''track load failed'')
   \<and> waitForEvents absent0 [ReplayUpdates, EndOfTrackUpdates]
         (spotify0\<lparr>currentTrack := Some broken\<rparr>) = Inl (Fatal ''track load failed'')"
  using play_load_failure_is_fatal [of broken "''track load failed''" spotify0 absent0
      "[EndOfTrackUpdates]"]
    play_load_failure_is_fatal [of broken "''track load failed''"
      "spotify0\<lparr>currentTrack := Some broken\<rparr>" absent0 "[EndOfTrackUpdates]",
      THEN conjunct2, THEN conjunct2, THEN conjunct1]
  by (simp add: broken_def spotify0_def)

theorem load_failure_ends_loop:
  "waitForEvents absent0 [PlayUpdates (Some naima), PlayUpdates (Some broken), PauseUpdates] spotify0
     = Inl (Fatal ''track load failed'')"
  by (simp add: play_def isTrackAvailable_def naima_def broken_def spotify0_def updateStatus_def)

text \<open>
  C2, as the code has it. On the shutdown signal the loop runs \<open>shutdownSpotify\<close>: the
  session is logged out, the cache deleted, and the shutdown published on the event bus;
  the current track and the paused flag stay. The loop then waits again: it has no exit,
  and the signals that arrive later are served as before. A pause after the shutdown, with
  a track playing, pauses the player.
\<close>

theorem shutdown_does_not_end_loop:
  "waitForEvents ext (ShutdownSpotifyUpdates # later) s =
     waitForEvents ext later
       (s\<lparr>effects := effects s @ [SessionLogout, DeleteCache (cacheLocation s), EventsShutdown]\<rparr>)
   \<and> (\<forall>track. currentTrack s = Some track \<and> \<not> paused s \<longrightarrow>
         waitForEvents ext [ShutdownSpotifyUpdates, PauseUpdates] s =
           Inr (s\<lparr>paused := True,
                 effects := effects s @
                   [SessionLogout, DeleteCache (cacheLocation s), EventsShutdown, PlayerPause,
                    EventsSetStatus (''Paused: '' @ artistName track @ '' - '' @ trackName track
                                     @ '' ['' @ durationString track @ '']'')]\<rparr>))"
  by (simp add: shutdownSpotify_def pause_def isPausedOrPlaying_def pauseCurrentTrack_def
      updateStatus_def)

theorem shutdown_does_not_end_loop_witness:
  "waitForEvents absent0 [ShutdownSpotifyUpdates, PauseUpdates] (spotify0\<lparr>currentTrack := Some naima\<rparr>) =
     Inr (spotify0\<lparr>currentTrack := Some naima, paused := True,
           effects := [SessionLogout, DeleteCache ''/tmp/sconsify/cache'', EventsShutdown,
                       PlayerPause, EventsSetStatus ''Paused: John Coltrane - Naima [4m21s]'']\<rparr>)"
  using shutdown_does_not_end_loop [of absent0 "[PauseUpdates]"
      "spotify0\<lparr>currentTrack := Some naima\<rparr>", THEN conjunct2, rule_format, of naima]
  by (simp add: spotify0_def naima_def)

theorem pause_after_shutdown_is_served:
  "waitForEvents absent0 [PlayUpdates (Some naima), ShutdownSpotifyUpdates] spotify0 =
     Inr (spotify0\<lparr>currentTrack := Some naima, paused := False,
           effects := [PlayerLoad naima, PlayerPlay,
                       EventsSetStatus ''Playing: John Coltrane - Naima [4m21s]'',
                       SessionLogout, DeleteCache ''/tmp/sconsify/cache'', EventsShutdown]\<rparr>)
   \<and> waitForEvents absent0 [PlayUpdates (Some naima), ShutdownSpotifyUpdates, PauseUpdates] spotify0 =
     Inr (spotify0\<lparr>currentTrack := Some naima, paused := True,
           effects := [PlayerLoad naima, PlayerPlay,
                       EventsSetStatus ''Playing: John Coltrane - Naima [4m21s]'',
                       SessionLogout, DeleteCache ''/tmp/sconsify/cache'', EventsShutdown,
                       PlayerPause, EventsSetStatus ''Paused: John Coltrane - Naima [4m21s]'']\<rparr>)"
  by (simp add: play_def isTrackAvailable_def naima_def spotify0_def updateStatus_def
      shutdownSpotify_def pause_def isPausedOrPlaying_def pauseCurrentTrack_def)


end
